theory Spec2Isabelle
  imports Main "HOL-Library.Word"
begin

unbundle bit_operations_syntax

section \<open>Bytes, strings and Go results\<close>

text \<open>
  The client of \<^verbatim>\<open>src/mainaudio.go\<close> works on byte slices, on Go strings (byte
  sequences; here \<^typ>\<open>string\<close>) and on fixed-width unsigned integers. A Go call either
  returns or panics; \<open>go_result\<close> keeps the two apart.
\<close>

type_synonym byte = "8 word"
type_synonym uint16 = "16 word"
type_synonym uint32 = "32 word"
type_synonym int64 = "64 word"

type_synonym oserror = string

datatype 'a go_result = Panic string | Return 'a

definition bytesOf :: "string \<Rightarrow> byte list" where
  "bytesOf s = map of_char s"

section \<open>encoding/binary, little endian\<close>

text \<open>
  \<^verbatim>\<open>binary.Write(file, binary.LittleEndian, v)\<close> for the three kinds of value that
  \<^verbatim>\<open>writeWAVHeader\<close> puts in its \<^verbatim>\<open>[]interface{}\<close>: a \<^verbatim>\<open>[4]byte\<close> tag, a
  \<^verbatim>\<open>uint32\<close> and a \<^verbatim>\<open>uint16\<close>.
\<close>

datatype field = Tag4 string | U32 uint32 | U16 uint16

definition putUint16 :: "uint16 \<Rightarrow> byte list" where
  "putUint16 v = [ucast v, ucast (drop_bit 8 v)]"

definition putUint32 :: "uint32 \<Rightarrow> byte list" where
  "putUint32 v = [ucast v, ucast (drop_bit 8 v), ucast (drop_bit 16 v), ucast (drop_bit 24 v)]"

fun encodeLE :: "field \<Rightarrow> byte list" where
  "encodeLE (Tag4 s) = bytesOf s"
| "encodeLE (U32 v) = putUint32 v"
| "encodeLE (U16 v) = putUint16 v"

text \<open>\<^verbatim>\<open>binary.LittleEndian.Uint16\<close> and \<^verbatim>\<open>Uint32\<close>, as \<^verbatim>\<open>binary.Read\<close> uses them.\<close>

definition leUint16 :: "byte list \<Rightarrow> uint16" where
  "leUint16 b = ucast (b ! 0) OR push_bit 8 (ucast (b ! 1))"

definition leUint32 :: "byte list \<Rightarrow> uint32" where
  "leUint32 b = ucast (b ! 0) OR push_bit 8 (ucast (b ! 1))
                 OR push_bit 16 (ucast (b ! 2)) OR push_bit 24 (ucast (b ! 3))"

section \<open>Files\<close>

text \<open>
  A file open for writing: the bytes written so far and what the disk will do next.
  \<open>Budget = None\<close> is a disk that never fails; \<open>Budget = Some k\<close> lets \<open>k\<close> more
  \<^verbatim>\<open>Write\<close> calls succeed and fails the one after.
\<close>

record wfile =
  Content :: "byte list"
  Budget :: "nat option"

definition fileWrite :: "wfile \<Rightarrow> byte list \<Rightarrow> oserror option \<times> wfile" where
  "fileWrite f bs =
     (case Budget f of
        None \<Rightarrow> (None, f\<lparr>Content := Content f @ bs\<rparr>)
      | Some 0 \<Rightarrow> (Some ''write failed'', f)
      | Some (Suc k) \<Rightarrow> (None, f\<lparr>Content := Content f @ bs, Budget := Some k\<rparr>))"

text \<open>What the environment does to the file that \<^verbatim>\<open>saveAudioOnly\<close> creates.\<close>

datatype diskFault = DiskOK | CreateFails oserror | WriteFailsAfter nat

definition osCreate :: "diskFault \<Rightarrow> oserror + wfile" where
  "osCreate d =
     (case d of
        DiskOK \<Rightarrow> Inr \<lparr>Content = [], Budget = None\<rparr>
      | CreateFails e \<Rightarrow> Inl e
      | WriteFailsAfter k \<Rightarrow> Inr \<lparr>Content = [], Budget = Some k\<rparr>)"

section \<open>Container encoder: writeWAVHeader\<close>

text \<open>The \<^verbatim>\<open>header\<close> slice of \<^verbatim>\<open>writeWAVHeader\<close>, in its order.\<close>

definition wavHeaderFields :: "uint32 \<Rightarrow> field list" where
  "wavHeaderFields dataSize =
     [ Tag4 ''RIFF'',
       U32 (dataSize + 36),
       Tag4 ''WAVE'',
       Tag4 ''fmt '',
       U32 16,
       U16 1,
       U16 1,
       U32 24000,
       U32 48000,
       U16 2,
       U16 16,
       Tag4 ''data'',
       U32 dataSize ]"

text \<open>The loop \<^verbatim>\<open>for _, v := range header\<close>: it stops at the first failed write.\<close>

fun writeFields :: "wfile \<Rightarrow> field list \<Rightarrow> oserror option \<times> wfile" where
  "writeFields f [] = (None, f)"
| "writeFields f (v # vs) =
     (case fileWrite f (encodeLE v) of
        (Some err, f') \<Rightarrow> (Some err, f')
      | (None, f') \<Rightarrow> writeFields f' vs)"

definition writeWAVHeader :: "wfile \<Rightarrow> uint32 \<Rightarrow> oserror option \<times> wfile" where
  "writeWAVHeader file dataSize = writeFields file (wavHeaderFields dataSize)"

text \<open>
  The container that \<^verbatim>\<open>saveAudioOnly\<close> writes on a disk that does not fail:
  \<^verbatim>\<open>writeWAVHeader(file, uint32(len(audioData)))\<close>, then \<^verbatim>\<open>file.Write(audioData)\<close>.
\<close>

definition encodeWAV :: "byte list \<Rightarrow> oserror option \<times> wfile" where
  "encodeWAV pcm =
     (case writeWAVHeader \<lparr>Content = [], Budget = None\<rparr> (of_nat (length pcm)) of
        (Some err, f) \<Rightarrow> (Some err, f)
      | (None, f) \<Rightarrow> fileWrite f pcm)"

section \<open>Outbound framer: validateWAVFormat\<close>

record WAVHeader =
  ChunkID :: "byte list"
  ChunkSize :: uint32
  Format :: "byte list"
  Subchunk1ID :: "byte list"
  Subchunk1Size :: uint32
  AudioFormat :: uint16
  NumChannels :: uint16
  SampleRate :: uint32
  ByteRate :: uint32
  BlockAlign :: uint16
  BitsPerSample :: uint16

datatype wavError =
    ErrReadWAVHeader oserror
  | ErrResetFilePosition oserror
  | ErrInvalidWAVFormat
  | ErrNotPCM uint16
  | ErrNot16Bit uint16
  | ErrNotMono uint16
  | ErrSampleRate uint32

text \<open>
  \<^verbatim>\<open>binary.Read(file, binary.LittleEndian, &header)\<close> takes the 36 bytes of the struct
  from the start of the file, and fails on a shorter file.
\<close>

definition slice :: "nat \<Rightarrow> nat \<Rightarrow> 'a list \<Rightarrow> 'a list" where
  "slice off n bs = take n (drop off bs)"

definition binaryReadHeader :: "byte list \<Rightarrow> oserror + WAVHeader" where
  "binaryReadHeader bs =
     (if length bs = 0 then Inl ''EOF''
      else if length bs < 36 then Inl ''unexpected EOF''
      else Inr \<lparr> ChunkID = slice 0 4 bs,
                 ChunkSize = leUint32 (slice 4 4 bs),
                 Format = slice 8 4 bs,
                 Subchunk1ID = slice 12 4 bs,
                 Subchunk1Size = leUint32 (slice 16 4 bs),
                 AudioFormat = leUint16 (slice 20 2 bs),
                 NumChannels = leUint16 (slice 22 2 bs),
                 SampleRate = leUint32 (slice 24 4 bs),
                 ByteRate = leUint32 (slice 28 4 bs),
                 BlockAlign = leUint16 (slice 32 2 bs),
                 BitsPerSample = leUint16 (slice 34 2 bs) \<rparr>)"

text \<open>
  \<open>seekFails\<close> is the environment's answer to \<^verbatim>\<open>file.Seek(0, 0)\<close>.
\<close>

definition validateWAVFormat :: "bool \<Rightarrow> byte list \<Rightarrow> wavError option" where
  "validateWAVFormat seekFails file =
     (case binaryReadHeader file of
        Inl err \<Rightarrow> Some (ErrReadWAVHeader err)
      | Inr header \<Rightarrow>
          if seekFails then Some (ErrResetFilePosition ''seek failed'')
          else if ChunkID header \<noteq> bytesOf ''RIFF'' \<or>
                  Format header \<noteq> bytesOf ''WAVE'' \<or>
                  Subchunk1ID header \<noteq> bytesOf ''fmt '' then Some ErrInvalidWAVFormat
          else if AudioFormat header \<noteq> 1 then Some (ErrNotPCM (AudioFormat header))
          else if BitsPerSample header \<noteq> 16 then Some (ErrNot16Bit (BitsPerSample header))
          else if NumChannels header \<noteq> 1 then Some (ErrNotMono (NumChannels header))
          else if SampleRate header \<noteq> 24000 then Some (ErrSampleRate (SampleRate header))
          else None)"

section \<open>Go library functions used by the client\<close>

subsection \<open>strings\<close>

definition HasPrefix :: "string \<Rightarrow> string \<Rightarrow> bool" where
  "HasPrefix s prefix \<longleftrightarrow> length prefix \<le> length s \<and> take (length prefix) s = prefix"

definition HasSuffix :: "string \<Rightarrow> string \<Rightarrow> bool" where
  "HasSuffix s suffix \<longleftrightarrow>
     length suffix \<le> length s \<and> drop (length s - length suffix) s = suffix"

definition TrimPrefix :: "string \<Rightarrow> string \<Rightarrow> string" where
  "TrimPrefix s prefix = (if HasPrefix s prefix then drop (length prefix) s else s)"

definition TrimSuffix :: "string \<Rightarrow> string \<Rightarrow> string" where
  "TrimSuffix s suffix = (if HasSuffix s suffix then take (length s - length suffix) s else s)"

subsection \<open>strconv and fmt\<close>

text \<open>The decimal rendering of a count, as \<^verbatim>\<open>%d\<close> prints it.\<close>

definition digitChar :: "nat \<Rightarrow> char" where
  "digitChar d = ''0123456789'' ! d"

fun decimal :: "nat \<Rightarrow> string" where
  "decimal n = (if n < 10 then [digitChar n] else decimal (n div 10) @ [digitChar (n mod 10)])"

declare decimal.simps [simp del]

text \<open>
  \<^verbatim>\<open>strconv.Atoi\<close> on a 64-bit platform: an optional sign, then decimal digits read by
  the loop of \<^verbatim>\<open>ParseUint\<close> into an unsigned 64-bit accumulator, then the range check
  of \<^verbatim>\<open>ParseInt\<close> against \<open>2 ^ 63\<close>.
\<close>

datatype numError = ErrSyntax | ErrRange

definition isDigit :: "char \<Rightarrow> bool" where
  "isDigit c \<longleftrightarrow> (48::nat) \<le> of_char c \<and> of_char c \<le> (57::nat)"

definition digitVal :: "char \<Rightarrow> nat" where
  "digitVal c = of_char c - 48"

definition maxUint64 :: nat where
  "maxUint64 = 2 ^ 64 - 1"

fun parseDigits :: "nat \<Rightarrow> string \<Rightarrow> numError + nat" where
  "parseDigits n [] = Inr n"
| "parseDigits n (c # cs) =
     (if \<not> isDigit c then Inl ErrSyntax
      else if n \<ge> maxUint64 div 10 + 1 then Inl ErrRange
      else if n * 10 + digitVal c > maxUint64 then Inl ErrRange
      else parseDigits (n * 10 + digitVal c) cs)"

definition ParseUint :: "string \<Rightarrow> numError + nat" where
  "ParseUint s = (if s = [] then Inl ErrSyntax else parseDigits 0 s)"

definition Atoi :: "string \<Rightarrow> numError + int" where
  "Atoi s =
     (if s = [] then Inl ErrSyntax
      else let neg = (hd s = CHR ''-'');
               s' = (if hd s = CHR ''+'' \<or> hd s = CHR ''-'' then tl s else s)
           in case ParseUint s' of
                Inl ErrSyntax \<Rightarrow> Inl ErrSyntax
              | Inl ErrRange \<Rightarrow> Inl ErrRange
              | Inr un \<Rightarrow>
                  if \<not> neg \<and> un \<ge> 2 ^ 63 then Inl ErrRange
                  else if neg \<and> un > 2 ^ 63 then Inl ErrRange
                  else Inr (if neg then - int un else int un))"

subsection \<open>make\<close>

text \<open>
  \<^verbatim>\<open>make([]byte, size)\<close> panics when the length is negative or beyond what the runtime
  can allocate; \<open>maxAlloc\<close> is that platform limit. Otherwise the slice holds that many
  zero bytes.
\<close>

definition makeBytes :: "int \<Rightarrow> int \<Rightarrow> byte list go_result" where
  "makeBytes maxAlloc len =
     (if len < 0 \<or> len > maxAlloc then Panic ''makeslice: len out of range''
      else Return (replicate (nat len) 0))"

subsection \<open>encoding/base64\<close>

text \<open>
  \<^verbatim>\<open>base64.StdEncoding\<close>: the standard alphabet with \<open>=\<close> padding. The decoder skips
  carriage returns and line feeds and is not strict about the unused bits of a padded
  group.
\<close>

definition encodeStd :: string where
  "encodeStd = ''ABCDEFGHIJKLMNOPQRSTUVWXYZabcdefghijklmnopqrstuvwxyz0123456789+/''"

definition enc64 :: "nat \<Rightarrow> char" where
  "enc64 i = encodeStd ! (i mod 64)"

fun EncodeToString :: "byte list \<Rightarrow> string" where
  "EncodeToString [] = []"
| "EncodeToString [a] =
     (let val = unat a * 65536
      in [enc64 (val div 262144), enc64 (val div 4096), CHR ''='', CHR ''=''])"
| "EncodeToString [a, b] =
     (let val = unat a * 65536 + unat b * 256
      in [enc64 (val div 262144), enc64 (val div 4096), enc64 (val div 64), CHR ''=''])"
| "EncodeToString (a # b # c # rest) =
     (let val = unat a * 65536 + unat b * 256 + unat c
      in [enc64 (val div 262144), enc64 (val div 4096), enc64 (val div 64), enc64 val]
         @ EncodeToString rest)"

fun indexByte :: "string \<Rightarrow> char \<Rightarrow> nat option" where
  "indexByte [] c = None"
| "indexByte (x # xs) c = (if x = c then Some 0 else map_option Suc (indexByte xs c))"

definition decodeMap :: "char \<Rightarrow> nat option" where
  "decodeMap c = indexByte encodeStd c"

fun decodeQuanta :: "string \<Rightarrow> byte list option" where
  "decodeQuanta [] = Some []"
| "decodeQuanta (a # b # c # d # rest) =
     (case (decodeMap a, decodeMap b) of
        (Some x, Some y) \<Rightarrow>
          if c = CHR ''='' then
            (if d = CHR ''='' \<and> rest = []
             then Some [of_nat ((x * 262144 + y * 4096) div 65536)] else None)
          else
            (case decodeMap c of
               None \<Rightarrow> None
             | Some z \<Rightarrow>
                 if d = CHR ''='' then
                   (if rest = []
                    then Some [of_nat ((x * 262144 + y * 4096 + z * 64) div 65536),
                               of_nat ((x * 262144 + y * 4096 + z * 64) div 256)]
                    else None)
                 else
                   (case decodeMap d of
                      None \<Rightarrow> None
                    | Some w \<Rightarrow>
                        map_option
                          (\<lambda>r. [of_nat ((x * 262144 + y * 4096 + z * 64 + w) div 65536),
                                of_nat ((x * 262144 + y * 4096 + z * 64 + w) div 256),
                                of_nat (x * 262144 + y * 4096 + z * 64 + w)] @ r)
                          (decodeQuanta rest)))
      | _ \<Rightarrow> None)"
| "decodeQuanta _ = None"

definition DecodeString :: "string \<Rightarrow> byte list option" where
  "DecodeString s = decodeQuanta (filter (\<lambda>c. c \<noteq> CHR 0x0A \<and> c \<noteq> CHR 0x0D) s)"

section \<open>Client state\<close>

text \<open>The types of \<^verbatim>\<open>src/audiotypes/types.go\<close> that the audio path uses.\<close>

record ClientConfig =
  ReadTimeout :: int
  WriteTimeout :: int
  PingInterval :: int
  MaxRetries :: int
  BufferSize :: int
  ShutdownTimeout :: int
  AudioOutputDir :: string

record AudioChunk =
  ResponseID :: string
  ItemID :: string
  OutputIndex :: int
  ContentIndex :: int
  Data :: "byte list"

record AudioMessage =
  Transcript :: string
  AudioData :: "byte list"
  Complete :: bool

record Metrics =
  MessagesSent :: int64
  MessagesReceived :: int64
  Errors :: int64
  AudioChunks :: int64

text \<open>The JSON events that the client writes on the connection.\<close>

datatype event =
    ConversationItemCreate string string
  | InputAudioBufferAppend string string
  | InputAudioBufferCommit string
  | ResponseCreate

text \<open>
  What shutdown does to the shared resources, in the order it happens. The goroutine
  that shutdown starts is \<open>NotStarted\<close> before the first call, \<open>AwaitingTasks\<close> while it
  sits in \<^verbatim>\<open>c.WG.Wait()\<close>, and \<open>Finished\<close> once it has closed the channels.
\<close>

datatype action =
    CloseDone
  | WriteCloseFrame
  | ConnClose
  | LoggerClose
  | CloseMessageChannel
  | CloseDisplayChannel
  | CloseAudioChannel
  | CloseComplete
  | LogShutdownCompleted
  | LogShutdownTimedOut

datatype closer = NotStarted | AwaitingTasks | Finished

text \<open>
  The errors of \<^verbatim>\<open>c.Conn.ReadMessage()\<close> as the receive loop tells them apart: a
  \<^verbatim>\<open>*websocket.CloseError\<close> with its code, a \<^verbatim>\<open>net.Error\<close> with its \<^verbatim>\<open>Timeout()\<close>,
  or any other error.
\<close>

datatype readError = CloseError nat | NetError bool | OtherError

text \<open>
  \<^verbatim>\<open>ChatClient\<close>, with the outside world it touches: \<open>Sent\<close> are the events written on
  \<open>Conn\<close>, \<open>Writes\<close> and \<open>Reads\<close> count the calls of \<^verbatim>\<open>WriteJSON\<close> and
  \<^verbatim>\<open>ReadMessage\<close>, \<open>Deadlines\<close> the calls of \<^verbatim>\<open>SetWriteDeadline\<close>, \<open>Slept\<close> the
  seconds of each \<^verbatim>\<open>time.Sleep\<close>, \<open>Logged\<close> the entries of the JSON log, \<open>Files\<close> the
  disk, and \<open>Trace\<close> the lifecycle actions. \<open>Done\<close> is true once the channel is closed,
  \<open>ShutdownOnce\<close> once the \<^verbatim>\<open>sync.Once\<close> has fired. \<open>Waited\<close> holds, for each
  \<^verbatim>\<open>select\<close> in which shutdown waited for its goroutine, how long it waited.
  \<open>ReadErr\<close> and \<open>ReadErrCount\<close> are the fields \<^verbatim>\<open>readErr\<close> and \<^verbatim>\<open>readErrCount\<close> of
  the \<^verbatim>\<open>websocket.Conn\<close> behind \<open>Conn\<close>: the error that ended reading, once there is
  one, and the number of reads that returned it.
\<close>

record client =
  Config :: ClientConfig
  Done :: bool
  ShutdownOnce :: bool
  Closer :: closer
  Trace :: "action list"
  AudioChannel :: "AudioChunk list"
  AudioBuffer :: "string \<rightharpoonup> AudioMessage"
  Metrics :: Metrics
  Sent :: "event list"
  Writes :: nat
  Reads :: nat
  Deadlines :: nat
  Slept :: "int list"
  Logged :: "(string \<times> string) list"
  Files :: "string \<rightharpoonup> byte list"
  Waited :: "int list"
  ReadErr :: "readError option"
  ReadErrCount :: nat

text \<open>\<^verbatim>\<open>DefaultConfig\<close> of \<^verbatim>\<open>mainaudio.go\<close>, durations in seconds.\<close>

definition DefaultConfig :: ClientConfig where
  "DefaultConfig =
     \<lparr> ReadTimeout = 180, WriteTimeout = 60, PingInterval = 20, MaxRetries = 3,
       BufferSize = 100, ShutdownTimeout = 5, AudioOutputDir = ''audio_output'' \<rparr>"

text \<open>\<^verbatim>\<open>NewChatClient\<close>: empty channels and buffers, nothing sent, nothing closed.\<close>

definition NewChatClient :: "ClientConfig \<Rightarrow> client" where
  "NewChatClient config =
     \<lparr> Config = config, Done = False, ShutdownOnce = False, Closer = NotStarted,
       Trace = [], AudioChannel = [], AudioBuffer = Map.empty,
       Metrics = \<lparr> MessagesSent = 0, MessagesReceived = 0, Errors = 0, AudioChunks = 0 \<rparr>,
       Sent = [], Writes = 0, Reads = 0, Deadlines = 0, Slept = [], Logged = [],
       Files = Map.empty, Waited = [], ReadErr = None, ReadErrCount = 0 \<rparr>"

definition RecordError :: "client \<Rightarrow> client" where
  "RecordError c = c\<lparr>Metrics := (Metrics c)\<lparr>Errors := Errors (Metrics c) + 1\<rparr>\<rparr>"

definition RecordAudioChunk :: "client \<Rightarrow> client" where
  "RecordAudioChunk c = c\<lparr>Metrics := (Metrics c)\<lparr>AudioChunks := AudioChunks (Metrics c) + 1\<rparr>\<rparr>"

definition LoggerLog :: "string \<Rightarrow> string \<Rightarrow> client \<Rightarrow> client" where
  "LoggerLog direction msgType c = c\<lparr>Logged := Logged c @ [(direction, msgType)]\<rparr>"

section \<open>Errors\<close>

datatype error =
    ErrUnmarshalAudioMessage
  | ErrParseAudioSize numError
  | ErrDecodeAudioData
  | ErrClientShutdown
  | ErrNoAudioData string
  | ErrEmptyAudioData string
  | ErrCreateAudioFile oserror
  | ErrWriteWAVHeader oserror
  | ErrWriteAudioData oserror
  | ErrOpenAudioFile oserror
  | ErrGetFileInfo oserror
  | ErrInvalidAudioFormat wavError
  | ErrSkipWAVHeader oserror
  | ErrWriteConversationItem oserror
  | ErrReadAudioFile oserror
  | ErrWriteAudioChunk oserror
  | ErrWriteAudioCommit oserror
  | ErrWriteResponseCreate oserror
  | ErrFailedAfterRetries int "oserror option"

section \<open>Inbound audio reassembler\<close>

text \<open>The map key of a stream: \<^verbatim>\<open>fmt.Sprintf("%s_%s", responseID, itemID)\<close>.\<close>

definition audioKey :: "string \<Rightarrow> string \<Rightarrow> string" where
  "audioKey responseID itemID = responseID @ ''_'' @ itemID"

definition handleAudioChunk :: "AudioChunk \<Rightarrow> client \<Rightarrow> client" where
  "handleAudioChunk chunk c =
     (let key = audioKey (ResponseID chunk) (ItemID chunk);
          buf = (case AudioBuffer c key of
                   None \<Rightarrow> \<lparr> Transcript = [], AudioData = [], Complete = False \<rparr>
                 | Some m \<Rightarrow> m)
      in RecordAudioChunk
           (c\<lparr>AudioBuffer := (AudioBuffer c)(key \<mapsto> buf\<lparr>AudioData := AudioData buf @ Data chunk\<rparr>)\<rparr>))"

text \<open>
  Fragments handed to \<^verbatim>\<open>handleAudioChunk\<close> one after the other, in delivery order, and
  the bytes that the buffer of a key holds.
\<close>

fun deliver :: "AudioChunk list \<Rightarrow> client \<Rightarrow> client" where
  "deliver [] c = c"
| "deliver (chunk # chunks) c = deliver chunks (handleAudioChunk chunk c)"

definition chunkKey :: "AudioChunk \<Rightarrow> string" where
  "chunkKey chunk = audioKey (ResponseID chunk) (ItemID chunk)"

definition bufferedAudio :: "client \<Rightarrow> string \<Rightarrow> byte list" where
  "bufferedAudio c key = (case AudioBuffer c key of None \<Rightarrow> [] | Some m \<Rightarrow> AudioData m)"

text \<open>
  One turn of \<^verbatim>\<open>audioProcessingRoutine\<close> in which the \<^verbatim>\<open>select\<close> receives from
  \<^verbatim>\<open>c.AudioChannel\<close>: the oldest queued chunk goes to \<^verbatim>\<open>handleAudioChunk\<close>.
\<close>

definition audioProcessingStep :: "client \<Rightarrow> client" where
  "audioProcessingStep c =
     (case AudioChannel c of
        [] \<Rightarrow> c
      | chunk # rest \<Rightarrow> handleAudioChunk chunk (c\<lparr>AudioChannel := rest\<rparr>))"

text \<open>
  \<^verbatim>\<open>saveAudioOnly\<close>. The buffer entry is deleted on the last line only; every earlier
  \<^verbatim>\<open>return\<close> leaves the map as it was. A file that was created stays on the disk with
  what was written to it.
\<close>

definition saveAudioOnly ::
  "diskFault \<Rightarrow> string \<Rightarrow> string \<Rightarrow> string \<Rightarrow> client \<Rightarrow> error option \<times> client" where
  "saveAudioOnly disk responseID itemID filepath c =
     (let key = audioKey responseID itemID in
      case AudioBuffer c key of
        None \<Rightarrow> (Some (ErrNoAudioData key), c)
      | Some audio \<Rightarrow>
          let audioData = AudioData audio in
          if length audioData = 0 then (Some (ErrEmptyAudioData key), c)
          else
            (case osCreate disk of
               Inl err \<Rightarrow> (Some (ErrCreateAudioFile err), c)
             | Inr file \<Rightarrow>
                 (case writeWAVHeader file (of_nat (length audioData)) of
                    (Some err, file') \<Rightarrow>
                      (Some (ErrWriteWAVHeader err),
                       c\<lparr>Files := (Files c)(filepath \<mapsto> Content file')\<rparr>)
                  | (None, file') \<Rightarrow>
                      (case fileWrite file' audioData of
                         (Some err, file'') \<Rightarrow>
                           (Some (ErrWriteAudioData err),
                            c\<lparr>Files := (Files c)(filepath \<mapsto> Content file'')\<rparr>)
                       | (None, file'') \<Rightarrow>
                           (None,
                            c\<lparr>Files := (Files c)(filepath \<mapsto> Content file''),
                              AudioBuffer := (AudioBuffer c)(key := None)\<rparr>)))))"

section \<open>Protocol dispatcher: handleAudioResponse\<close>

text \<open>The anonymous struct that \<^verbatim>\<open>handleAudioResponse\<close> unmarshals a frame into.\<close>

record audioMsg =
  MsgType :: string
  MsgResponseID :: string
  MsgItemID :: string
  MsgOutputIndex :: int
  MsgContentIndex :: int
  Delta :: string

text \<open>
  The payload decoding of \<^verbatim>\<open>handleAudioResponse\<close>: the sentinel branch and the base64
  branch. The result is a panic, an error return, or the bytes of \<^verbatim>\<open>processedData\<close>.
\<close>

definition decodeDelta :: "int \<Rightarrow> string \<Rightarrow> (error + byte list) go_result" where
  "decodeDelta maxAlloc delta =
     (if HasPrefix delta ''[trimmed: '' \<and> HasSuffix delta '' bytes]'' then
        (let data = TrimPrefix delta ''[trimmed: '';
             data = TrimSuffix data '' bytes]''
         in case Atoi data of
              Inl err \<Rightarrow> Return (Inl (ErrParseAudioSize err))
            | Inr n \<Rightarrow>
                (case makeBytes maxAlloc n of
                   Panic msg \<Rightarrow> Panic msg
                 | Return processedData \<Rightarrow> Return (Inr processedData)))
      else
        (case DecodeString delta of
           None \<Rightarrow> Return (Inl ErrDecodeAudioData)
         | Some processedData \<Rightarrow> Return (Inr processedData)))"

text \<open>
  The \<^verbatim>\<open>select\<close> at the end of \<^verbatim>\<open>handleAudioResponse\<close> either hands the chunk to
  \<^verbatim>\<open>c.AudioChannel\<close> or sees \<^verbatim>\<open>c.Done\<close> first; which one is the scheduler's choice.
\<close>

datatype handoff = ChannelReady | DoneFirst

text \<open>
  \<open>message\<close> is the result of \<^verbatim>\<open>json.Unmarshal\<close> on the frame: \<open>None\<close> when it fails.
\<close>

definition handleAudioResponse ::
  "int \<Rightarrow> handoff \<Rightarrow> audioMsg option \<Rightarrow> client \<Rightarrow> (error option \<times> client) go_result" where
  "handleAudioResponse maxAlloc sel message c =
     (case message of
        None \<Rightarrow> Return (Some ErrUnmarshalAudioMessage, c)
      | Some m \<Rightarrow>
          (case decodeDelta maxAlloc (Delta m) of
             Panic msg \<Rightarrow> Panic msg
           | Return (Inl err) \<Rightarrow> Return (Some err, c)
           | Return (Inr processedData) \<Rightarrow>
               (let chunk = \<lparr> ResponseID = MsgResponseID m, ItemID = MsgItemID m,
                              OutputIndex = MsgOutputIndex m, ContentIndex = MsgContentIndex m,
                              Data = processedData \<rparr>
                in case sel of
                     ChannelReady \<Rightarrow> Return (None, c\<lparr>AudioChannel := AudioChannel c @ [chunk]\<rparr>)
                   | DoneFirst \<Rightarrow> Return (Some ErrClientShutdown, c))))"

section \<open>Transport\<close>

text \<open>
  The network is a script \<open>net\<close>: the answer to the \<open>i\<close>-th call of \<^verbatim>\<open>WriteJSON\<close> on
  the connection, \<open>None\<close> for a frame that went out and \<open>Some err\<close> for a failed write.
\<close>

type_synonym network = "nat \<Rightarrow> oserror option"

definition WriteJSON :: "network \<Rightarrow> event \<Rightarrow> client \<Rightarrow> oserror option \<times> client" where
  "WriteJSON net msg c =
     (case net (Writes c) of
        Some err \<Rightarrow> (Some err, c\<lparr>Writes := Writes c + 1\<rparr>)
      | None \<Rightarrow> (None, c\<lparr>Writes := Writes c + 1, Sent := Sent c @ [msg]\<rparr>))"

text \<open>
  \<^verbatim>\<open>sendWithRetry\<close> of \<^verbatim>\<open>src/maingo.go\<close>: the loop \<^verbatim>\<open>for i := 0; i < MaxRetries; i++\<close>,
  with the write deadline set before each attempt and \<open>i + 1\<close> seconds of sleep after
  each failure.
\<close>

function sendWithRetryLoop ::
  "network \<Rightarrow> event \<Rightarrow> int \<Rightarrow> int \<Rightarrow> oserror option \<Rightarrow> client
     \<Rightarrow> error option \<times> client" where
  "sendWithRetryLoop net msg maxRetries i lastErr c =
     (if i < maxRetries then
        (case WriteJSON net msg (c\<lparr>Deadlines := Deadlines c + 1\<rparr>) of
           (Some err, c') \<Rightarrow>
             sendWithRetryLoop net msg maxRetries (i + 1) (Some err)
               ((RecordError c')\<lparr>Slept := Slept c' @ [i + 1]\<rparr>)
         | (None, c') \<Rightarrow>
             (None, c'\<lparr>Metrics := (Metrics c')\<lparr>MessagesSent := MessagesSent (Metrics c') + 1\<rparr>\<rparr>))
      else (Some (ErrFailedAfterRetries maxRetries lastErr), c))"
  by pat_completeness auto
termination
  by (relation "measure (\<lambda>(net, msg, maxRetries, i, lastErr, c). nat (maxRetries - i))") auto

declare sendWithRetryLoop.simps [simp del]

definition sendWithRetry :: "network \<Rightarrow> event \<Rightarrow> client \<Rightarrow> error option \<times> client" where
  "sendWithRetry net msg c = sendWithRetryLoop net msg (MaxRetries (Config c)) 0 None c"

section \<open>Outbound audio framer: sendAudioMessage\<close>

record AudioChunkConfig =
  ChunkSize :: nat
  ChunkDurationMs :: nat

definition DefaultAudioChunkConfig :: AudioChunkConfig where
  "DefaultAudioChunkConfig =
     (let chunkSize = 16 * 1024;
          bytesPerSecond = 24000 * 2;
          durationMs = (chunkSize * 1000) div bytesPerSecond
      in \<lparr> ChunkSize = chunkSize, ChunkDurationMs = durationMs \<rparr>)"

text \<open>
  What the environment does to the file that is read: whether \<^verbatim>\<open>Stat\<close> fails, whether
  each of the two \<^verbatim>\<open>Seek\<close> calls fails, and after how many good \<^verbatim>\<open>Read\<close> calls a
  read error comes, if any.
\<close>

record readFaults =
  StatFails :: bool
  RewindFails :: bool
  SkipFails :: bool
  ReadFailsAfter :: "nat option"

definition noFaults :: readFaults where
  "noFaults = \<lparr> StatFails = False, RewindFails = False, SkipFails = False,
                ReadFailsAfter = None \<rparr>"

text \<open>
  The read loop of \<^verbatim>\<open>sendAudioMessage\<close>. \<open>unread\<close> is the file from the read position
  on; \<^verbatim>\<open>file.Read(buffer)\<close> on a regular file gives the next \<open>min (len buffer) (len
  unread)\<close> bytes, and \<open>0, io.EOF\<close> when none are left; into a buffer of length zero it
  gives \<open>0, nil\<close>. The loop has no bound of its own, so the result is \<open>None\<close> where it
  does not return.
\<close>

partial_function (option) sendChunks ::
  "network \<Rightarrow> nat \<Rightarrow> nat option \<Rightarrow> byte list \<Rightarrow> nat \<Rightarrow> client
     \<Rightarrow> (error option \<times> client) option" where
  "sendChunks net bufferLen readFails unread chunkCount c =
     (if readFails = Some 0 then Some (Some (ErrReadAudioFile ''read failed''), c)
      else
        let n = min bufferLen (length unread);
            eof = (0 < bufferLen \<and> unread = [])
        in if n > 0 then
             (let appendMsg = InputAudioBufferAppend
                                (''evt_audio_'' @ decimal (chunkCount + 1))
                                (EncodeToString (take n unread))
              in case WriteJSON net appendMsg (LoggerLog ''sent'' ''input_audio_buffer.append'' c) of
                   (Some err, c') \<Rightarrow> Some (Some (ErrWriteAudioChunk err), c')
                 | (None, c') \<Rightarrow>
                     sendChunks net bufferLen (map_option (\<lambda>k. k - 1) readFails)
                       (drop n unread) (chunkCount + 1) c')
           else if eof then
             (let commitMsg = InputAudioBufferCommit (''evt_commit_'' @ decimal chunkCount)
              in case WriteJSON net commitMsg (LoggerLog ''sent'' ''input_audio_buffer.commit'' c) of
                   (Some err, c') \<Rightarrow> Some (Some (ErrWriteAudioCommit err), c')
                 | (None, c') \<Rightarrow> Some (None, c'))
           else sendChunks net bufferLen (map_option (\<lambda>k. k - 1) readFails) unread chunkCount c)"

text \<open>
  The append events for a payload that is still to be read, numbered on from
  \<open>chunkCount\<close>: one for each buffer-full, the last one possibly shorter.
\<close>

function appendEvents :: "nat \<Rightarrow> nat \<Rightarrow> byte list \<Rightarrow> event list" where
  "appendEvents bufferLen chunkCount unread =
     (if bufferLen = 0 \<or> unread = [] then []
      else InputAudioBufferAppend (''evt_audio_'' @ decimal (chunkCount + 1))
             (EncodeToString (take bufferLen unread))
           # appendEvents bufferLen (chunkCount + 1) (drop bufferLen unread))"
  by pat_completeness auto
termination
  by (relation "measure (\<lambda>(bufferLen, chunkCount, unread). length unread)") auto

declare appendEvents.simps [simp del]

text \<open>Reading the events back: kind, identifier, payload, and the decoded payloads joined.\<close>

definition isAppend :: "event \<Rightarrow> bool" where
  "isAppend e = (case e of InputAudioBufferAppend i a \<Rightarrow> True | _ \<Rightarrow> False)"

definition isCommit :: "event \<Rightarrow> bool" where
  "isCommit e = (case e of InputAudioBufferCommit i \<Rightarrow> True | _ \<Rightarrow> False)"

definition eventID :: "event \<Rightarrow> string" where
  "eventID e =
     (case e of InputAudioBufferAppend i a \<Rightarrow> i | InputAudioBufferCommit i \<Rightarrow> i | _ \<Rightarrow> [])"

definition audioOf :: "event \<Rightarrow> string" where
  "audioOf e = (case e of InputAudioBufferAppend i a \<Rightarrow> a | _ \<Rightarrow> [])"

text \<open>
  The \<^verbatim>\<open>type\<close> field of each event, the error that \<^verbatim>\<open>sendAudioMessage\<close> wraps a
  failed write of it in, and the events of a whole upload in the order of their writes.
\<close>

definition eventType :: "event \<Rightarrow> string" where
  "eventType e =
     (case e of
        ConversationItemCreate t r \<Rightarrow> ''conversation.item.create''
      | InputAudioBufferAppend i a \<Rightarrow> ''input_audio_buffer.append''
      | InputAudioBufferCommit i \<Rightarrow> ''input_audio_buffer.commit''
      | ResponseCreate \<Rightarrow> ''response.create'')"

definition sendError :: "event \<Rightarrow> oserror \<Rightarrow> error" where
  "sendError e err =
     (case e of
        ConversationItemCreate t r \<Rightarrow> ErrWriteConversationItem err
      | InputAudioBufferAppend i a \<Rightarrow> ErrWriteAudioChunk err
      | InputAudioBufferCommit i \<Rightarrow> ErrWriteAudioCommit err
      | ResponseCreate \<Rightarrow> ErrWriteResponseCreate err)"

definition loopEvents :: "nat \<Rightarrow> nat \<Rightarrow> byte list \<Rightarrow> event list" where
  "loopEvents bufferLen chunkCount unread =
     appendEvents bufferLen chunkCount unread @
     [InputAudioBufferCommit
        (''evt_commit_'' @
         decimal (chunkCount + length (appendEvents bufferLen chunkCount unread)))]"

definition uploadEvents :: "nat \<Rightarrow> byte list \<Rightarrow> event list" where
  "uploadEvents bufferLen raw =
     ConversationItemCreate ''input_audio'' ''audio_0'' #
     loopEvents bufferLen 0 raw @ [ResponseCreate]"

text \<open>
  The client after it has logged the first \<open>l\<close> and written the first \<open>s\<close> of the
  events \<open>evs\<close>, with \<open>w\<close> calls of \<^verbatim>\<open>WriteJSON\<close>.
\<close>

definition progressed :: "event list \<Rightarrow> nat \<Rightarrow> nat \<Rightarrow> nat \<Rightarrow> client \<Rightarrow> client" where
  "progressed evs l s w c =
     c\<lparr>Logged := Logged c @ map (\<lambda>e. (''sent'', eventType e)) (take l evs),
       Writes := Writes c + w,
       Sent := Sent c @ take s evs\<rparr>"

fun decodeAll :: "string list \<Rightarrow> byte list option" where
  "decodeAll [] = Some []"
| "decodeAll (p # ps) =
     (case DecodeString p of
        None \<Rightarrow> None
      | Some bs \<Rightarrow> map_option (\<lambda>r. bs @ r) (decodeAll ps))"

text \<open>
  \<^verbatim>\<open>sendAudioMessage\<close> with the chunk configuration as a parameter; the source always
  passes \<^verbatim>\<open>DefaultAudioChunkConfig()\<close>.
\<close>

definition sendAudioMessageWith ::
  "AudioChunkConfig \<Rightarrow> network \<Rightarrow> readFaults \<Rightarrow> string \<Rightarrow> client
     \<Rightarrow> (error option \<times> client) option" where
  "sendAudioMessageWith chunkConfig net faults audioFilePath c =
     (case Files c audioFilePath of
        None \<Rightarrow> Some (Some (ErrOpenAudioFile ''no such file or directory''), c)
      | Some file \<Rightarrow>
          if StatFails faults then Some (Some (ErrGetFileInfo ''stat failed''), c)
          else
            (case validateWAVFormat (RewindFails faults) file of
               Some err \<Rightarrow> Some (Some (ErrInvalidAudioFormat err), c)
             | None \<Rightarrow>
                 if SkipFails faults then Some (Some (ErrSkipWAVHeader ''seek failed''), c)
                 else
                   (case WriteJSON net (ConversationItemCreate ''input_audio'' ''audio_0'')
                           (LoggerLog ''sent'' ''conversation.item.create'' c) of
                      (Some err, c1) \<Rightarrow> Some (Some (ErrWriteConversationItem err), c1)
                    | (None, c1) \<Rightarrow>
                        (case sendChunks net (ChunkSize chunkConfig) (ReadFailsAfter faults)
                                (drop 44 file) 0 c1 of
                           None \<Rightarrow> None
                         | Some (Some err, c2) \<Rightarrow> Some (Some err, c2)
                         | Some (None, c2) \<Rightarrow>
                             (case WriteJSON net ResponseCreate
                                     (LoggerLog ''sent'' ''response.create'' c2) of
                                (Some err, c3) \<Rightarrow> Some (Some (ErrWriteResponseCreate err), c3)
                              | (None, c3) \<Rightarrow> Some (None, c3))))))"

definition sendAudioMessage ::
  "network \<Rightarrow> readFaults \<Rightarrow> string \<Rightarrow> client \<Rightarrow> (error option \<times> client) option" where
  "sendAudioMessage = sendAudioMessageWith DefaultAudioChunkConfig"

section \<open>Lifecycle coordinator: shutdown\<close>

text \<open>
  The goroutine started by shutdown closes the channels once \<^verbatim>\<open>c.WG.Wait()\<close> has
  returned, that is once every task of the wait group has called \<^verbatim>\<open>Done\<close>.
\<close>

definition tasksFinished :: "client \<Rightarrow> client" where
  "tasksFinished c =
     (if Closer c = AwaitingTasks
      then c\<lparr>Trace := Trace c @ [CloseMessageChannel, CloseDisplayChannel, CloseAudioChannel,
                                  CloseComplete],
             Closer := Finished\<rparr>
      else c)"

text \<open>
  \<^verbatim>\<open>shutdown\<close>. The body runs under \<^verbatim>\<open>c.ShutdownOnce.Do\<close>. \<open>finish\<close> says when the tasks
  of the wait group let the goroutine get past \<^verbatim>\<open>c.WG.Wait()\<close>: \<open>Some t\<close> for \<open>t\<close> time
  units after the call (the unit of \<open>ShutdownTimeout\<close>), \<open>None\<close> for not while the caller
  waits. The \<^verbatim>\<open>select\<close> sees \<^verbatim>\<open>complete\<close> when that is before the context expires and
  has then waited \<open>t\<close>; otherwise it sees the timeout, has waited \<open>ShutdownTimeout\<close> (no
  time at all for a timeout that is not positive), and the goroutine stays in
  \<^verbatim>\<open>c.WG.Wait()\<close>. Before that, the goroutine's first three calls wait for nothing
  but the one-second deadline of the close frame; the trace lists them ahead of the
  outcome of the \<^verbatim>\<open>select\<close>.
\<close>

definition shutdown :: "nat option \<Rightarrow> client \<Rightarrow> client" where
  "shutdown finish c =
     (if ShutdownOnce c then c
      else
        let c1 = c\<lparr>ShutdownOnce := True, Done := True, Trace := Trace c @ [CloseDone]\<rparr>;
            timeout = max 0 (ShutdownTimeout (Config c1));
            c2 = c1\<lparr>Trace := Trace c1 @ [WriteCloseFrame, ConnClose, LoggerClose],
                    Closer := AwaitingTasks\<rparr>;
            timedOut = c2\<lparr>Trace := Trace c2 @ [LogShutdownTimedOut],
                          Waited := Waited c2 @ [timeout]\<rparr>
        in case finish of
             None \<Rightarrow> timedOut
           | Some t \<Rightarrow>
               if int t < timeout
               then (let c3 = tasksFinished c2
                     in c3\<lparr>Trace := Trace c3 @ [LogShutdownCompleted],
                           Waited := Waited c3 @ [int t]\<rparr>)
               else timedOut)"




section \<open>Protocol dispatcher: receiveRoutine\<close>

text \<open>
  What the network has for the connection, one entry for each time the connection
  asks it for the next data frame: a frame, or the error that the attempt ends with (a
  read deadline that passes is \<open>ReadFailed (NetError True)\<close>).
\<close>

datatype 'm readResult = ReadFailed readError | ReadMessage 'm

definition CloseNormalClosure :: nat where
  "CloseNormalClosure = 1000"

definition CloseGoingAway :: nat where
  "CloseGoingAway = 1001"

definition IsCloseError :: "readError \<Rightarrow> nat list \<Rightarrow> bool" where
  "IsCloseError err codes =
     (case err of CloseError code \<Rightarrow> code \<in> set codes | _ \<Rightarrow> False)"

definition IsUnexpectedCloseError :: "readError \<Rightarrow> nat list \<Rightarrow> bool" where
  "IsUnexpectedCloseError err expectedCodes =
     (case err of CloseError code \<Rightarrow> code \<notin> set expectedCodes | _ \<Rightarrow> False)"

definition isTimeout :: "readError \<Rightarrow> bool" where
  "isTimeout err = (case err of NetError timeout \<Rightarrow> timeout | _ \<Rightarrow> False)"

text \<open>
  \<^verbatim>\<open>c.Conn.ReadMessage()\<close> of \<^verbatim>\<open>gorilla/websocket\<close>. \<^verbatim>\<open>NextReader\<close> asks the network
  for a frame only while \<^verbatim>\<open>c.readErr == nil\<close>, and keeps the first error in
  \<^verbatim>\<open>c.readErr\<close>, a timeout included. Every read that finds the connection failed adds
  one to \<^verbatim>\<open>c.readErrCount\<close>, panics when the count has reached 1000 and returns the
  kept error otherwise, without touching the network. With no error kept and nothing
  on the wire the read blocks.
\<close>

datatype 'm readOutcome = ReadBlocks | ReadPanics string | ReadReturns "readError + 'm"

definition failedRead :: "readError \<Rightarrow> client \<Rightarrow> 'm readOutcome \<times> client" where
  "failedRead err c =
     (let c1 = c\<lparr>ReadErrCount := ReadErrCount c + 1\<rparr>
      in if ReadErrCount c1 \<ge> 1000
         then (ReadPanics ''repeated read on failed websocket connection'', c1)
         else (ReadReturns (Inl err), c1))"

definition ConnReadMessage ::
  "'m readResult list \<Rightarrow> client \<Rightarrow> 'm readOutcome \<times> 'm readResult list \<times> client" where
  "ConnReadMessage wire c =
     (let c1 = c\<lparr>Reads := Reads c + 1\<rparr>
      in case ReadErr c1 of
           Some err \<Rightarrow> (let (out, c2) = failedRead err c1 in (out, wire, c2))
         | None \<Rightarrow>
             (case wire of
                [] \<Rightarrow> (ReadBlocks, [], c1)
              | ReadMessage message # rest \<Rightarrow> (ReadReturns (Inr message), rest, c1)
              | ReadFailed err # rest \<Rightarrow>
                  (let (out, c2) = failedRead err (c1\<lparr>ReadErr := Some err\<rparr>)
                   in (out, rest, c2))))"

datatype routineExit = Returned | Panicked string | BlockedInRead

text \<open>
  \<^verbatim>\<open>receiveRoutine\<close> over what the network has for its connection. A frame that was
  read goes to \<open>dispatch\<close>, the \<^verbatim>\<open>switch\<close> on the message type. After a timeout, and
  after an error that is not a close error, the loop goes round and reads again. When
  the wire is used up on a sound connection the routine is waiting in the next read.
  The routine is itself a task of the wait group, so the goroutine of a shutdown it
  calls does not get past \<^verbatim>\<open>c.WG.Wait()\<close> while that shutdown waits.
\<close>

function receiveRoutine ::
  "('m \<Rightarrow> client \<Rightarrow> client go_result) \<Rightarrow> 'm readResult list \<Rightarrow> client
     \<Rightarrow> routineExit \<times> client" where
  "receiveRoutine dispatch wire c =
     (if Done c then (Returned, c)
      else
        case ConnReadMessage wire c of
          (ReadBlocks, wire1, c1) \<Rightarrow> (BlockedInRead, c1)
        | (ReadPanics msg, wire1, c1) \<Rightarrow> (Panicked msg, c1)
        | (ReadReturns (Inl err), wire1, c1) \<Rightarrow>
            if IsCloseError err [CloseNormalClosure, CloseGoingAway] then (Returned, c1)
            else if isTimeout err then receiveRoutine dispatch wire1 c1
            else
              (let c2 = RecordError c1
               in if IsUnexpectedCloseError err [] then (Returned, shutdown None c2)
                  else receiveRoutine dispatch wire1 c2)
        | (ReadReturns (Inr message), wire1, c1) \<Rightarrow>
            (case dispatch message c1 of
               Panic msg \<Rightarrow> (Panicked msg, c1)
             | Return c2 \<Rightarrow> receiveRoutine dispatch wire1 c2))"
  by pat_completeness auto
termination
proof (relation "measures [\<lambda>(dispatch, wire, c). length wire,
                            \<lambda>(dispatch, wire, c). 1000 - ReadErrCount c]")
qed (auto simp: ConnReadMessage_def failedRead_def RecordError_def Let_def
       split: option.splits list.splits readResult.splits if_splits)

declare receiveRoutine.simps [simp del]

section \<open>Properties of the container encoder\<close>

lemma leUint16_putUint16: "leUint16 (putUint16 v) = v"
  unfolding leUint16_def putUint16_def
proof (rule bit_word_eqI)
  fix n assume "n < LENGTH(16)"
  then show "bit (ucast ([ucast v, ucast (drop_bit 8 v)] ! 0 :: byte) OR
                  push_bit 8 (ucast ([ucast v, ucast (drop_bit 8 v)] ! 1 :: byte)) :: uint16) n
             = bit v n"
    by (cases "n < 8") (auto simp: bit_simps)
qed

lemma leUint32_putUint32: "leUint32 (putUint32 v) = v"
  unfolding leUint32_def putUint32_def
proof (rule bit_word_eqI)
  fix n assume n: "n < LENGTH(32)"
  consider "n < 8" | "8 \<le> n" "n < 16" | "16 \<le> n" "n < 24" | "24 \<le> n"
    by linarith
  then show "bit (ucast ([ucast v, ucast (drop_bit 8 v), ucast (drop_bit 16 v),
                          ucast (drop_bit 24 v)] ! 0 :: byte) OR
                  push_bit 8 (ucast ([ucast v, ucast (drop_bit 8 v), ucast (drop_bit 16 v),
                          ucast (drop_bit 24 v)] ! 1 :: byte)) OR
                  push_bit 16 (ucast ([ucast v, ucast (drop_bit 8 v), ucast (drop_bit 16 v),
                          ucast (drop_bit 24 v)] ! 2 :: byte)) OR
                  push_bit 24 (ucast ([ucast v, ucast (drop_bit 8 v), ucast (drop_bit 16 v),
                          ucast (drop_bit 24 v)] ! 3 :: byte)) :: uint32) n
             = bit v n"
    using n by cases (auto simp: bit_simps)
qed

lemma length_putUint16 [simp]: "length (putUint16 v) = 2"
  by (simp add: putUint16_def)

lemma length_putUint32 [simp]: "length (putUint32 v) = 4"
  by (simp add: putUint32_def)

lemma length_bytesOf [simp]: "length (bytesOf s) = length s"
  by (simp add: bytesOf_def)

lemma writeFields_never_fails:
  "Budget f = None \<Longrightarrow>
   writeFields f vs = (None, f\<lparr>Content := Content f @ concat (map encodeLE vs)\<rparr>)"
  by (induction vs arbitrary: f) (simp_all add: fileWrite_def)

lemma length_wavHeader: "length (concat (map encodeLE (wavHeaderFields n))) = 44"
  by (simp add: wavHeaderFields_def)

lemma encodeWAV_eq:
  "encodeWAV pcm =
     (None, \<lparr>Content = concat (map encodeLE (wavHeaderFields (of_nat (length pcm)))) @ pcm,
             Budget = None\<rparr>)"
  by (simp add: encodeWAV_def writeWAVHeader_def writeFields_never_fails fileWrite_def)

text \<open>
  \<^bold>\<open>C2.\<close> On a disk that does not fail, \<^verbatim>\<open>writeWAVHeader\<close> writes exactly 44 bytes:
  \<open>RIFF\<close>, \<open>len(pcm) + 36\<close> as a little-endian \<^verbatim>\<open>uint32\<close> (the sum is taken in 32
  bits, as the source does), \<open>WAVE\<close>, \<open>fmt \<close>, 16, format 1, one channel, 24000 Hz,
  byte rate 48000, block align 2, 16 bits per sample, \<open>data\<close>, and \<open>len(pcm)\<close> as a
  \<^verbatim>\<open>uint32\<close>. The encoder is a function of the samples alone; its output is this
  header followed by the samples, \<open>len(pcm) + 44\<close> bytes in all.
\<close>

theorem wav_header_byte_exact:
  "writeWAVHeader \<lparr>Content = [], Budget = None\<rparr> (of_nat (length pcm)) =
     (None,
      \<lparr>Content =
         bytesOf ''RIFF'' @ putUint32 (of_nat (length pcm + 36)) @ bytesOf ''WAVE'' @
         bytesOf ''fmt '' @ putUint32 16 @ putUint16 1 @ putUint16 1 @ putUint32 24000 @
         putUint32 48000 @ putUint16 2 @ putUint16 16 @ bytesOf ''data'' @
         putUint32 (of_nat (length pcm)),
       Budget = None\<rparr>)
   \<and> bytesOf ''RIFF'' @ putUint32 (of_nat (length pcm + 36)) @ bytesOf ''WAVE'' @
       bytesOf ''fmt '' @ putUint32 16 @ putUint16 1 @ putUint16 1 @ putUint32 24000 @
       putUint32 48000 @ putUint16 2 @ putUint16 16 @ bytesOf ''data'' @
       putUint32 (of_nat (length pcm)) =
     [0x52, 0x49, 0x46, 0x46] @ putUint32 (of_nat (length pcm + 36)) @
     [0x57, 0x41, 0x56, 0x45, 0x66, 0x6D, 0x74, 0x20, 16, 0, 0, 0, 1, 0, 1, 0,
      0xC0, 0x5D, 0, 0, 0x80, 0xBB, 0, 0, 2, 0, 16, 0, 0x64, 0x61, 0x74, 0x61] @
     putUint32 (of_nat (length pcm))
   \<and> (48000 :: nat) = 24000 * 1 * 16 div 8
   \<and> fst (encodeWAV pcm) = None
   \<and> Content (snd (encodeWAV pcm)) =
       Content (snd (writeWAVHeader \<lparr>Content = [], Budget = None\<rparr> (of_nat (length pcm)))) @ pcm
   \<and> length (Content (snd (encodeWAV pcm))) = length pcm + 44"
proof -
  have hdr: "writeWAVHeader \<lparr>Content = [], Budget = None\<rparr> (of_nat (length pcm)) =
      (None, \<lparr>Content = concat (map encodeLE (wavHeaderFields (of_nat (length pcm)))),
              Budget = None\<rparr>)"
    by (simp add: writeWAVHeader_def writeFields_never_fails)
  have fields: "concat (map encodeLE (wavHeaderFields (of_nat (length pcm)))) =
         bytesOf ''RIFF'' @ putUint32 (of_nat (length pcm + 36)) @ bytesOf ''WAVE'' @
         bytesOf ''fmt '' @ putUint32 16 @ putUint16 1 @ putUint16 1 @ putUint32 24000 @
         putUint32 48000 @ putUint16 2 @ putUint16 16 @ bytesOf ''data'' @
         putUint32 (of_nat (length pcm))"
    by (simp add: wavHeaderFields_def)
  have bytes: "bytesOf ''RIFF'' @ putUint32 (of_nat (length pcm + 36)) @ bytesOf ''WAVE'' @
       bytesOf ''fmt '' @ putUint32 16 @ putUint16 1 @ putUint16 1 @ putUint32 24000 @
       putUint32 48000 @ putUint16 2 @ putUint16 16 @ bytesOf ''data'' @
       putUint32 (of_nat (length pcm)) =
     [0x52, 0x49, 0x46, 0x46] @ putUint32 (of_nat (length pcm + 36)) @
     [0x57, 0x41, 0x56, 0x45, 0x66, 0x6D, 0x74, 0x20, 16, 0, 0, 0, 1, 0, 1, 0,
      0xC0, 0x5D, 0, 0, 0x80, 0xBB, 0, 0, 2, 0, 16, 0, 0x64, 0x61, 0x74, 0x61] @
     putUint32 (of_nat (length pcm))"
    by (simp add: bytesOf_def putUint32_def putUint16_def)
  have len: "length (Content (snd (encodeWAV pcm))) = length pcm + 44"
    by (simp add: encodeWAV_eq length_wavHeader del: map_append concat_append)
  show ?thesis
    using hdr fields bytes len by (simp add: encodeWAV_eq)
qed

section \<open>Properties of the outbound validator\<close>

lemma binaryReadHeader_fields:
  assumes "length t1 = 4" "length t2 = 4" "length t3 = 4"
  shows "binaryReadHeader (t1 @ putUint32 a @ t2 @ t3 @ putUint32 b @ putUint16 c @ putUint16 d @
            putUint32 e @ putUint32 f @ putUint16 g @ putUint16 h @ rest) =
         Inr \<lparr> ChunkID = t1, ChunkSize = a, Format = t2, Subchunk1ID = t3, Subchunk1Size = b,
               AudioFormat = c, NumChannels = d, SampleRate = e, ByteRate = f,
               BlockAlign = g, BitsPerSample = h \<rparr>"
  using assms
  by (simp add: binaryReadHeader_def slice_def leUint16_putUint16 leUint32_putUint32)

lemma wavHeaderFields_update:
  "(wavHeaderFields n)[5 := x] =
     [Tag4 ''RIFF'', U32 (n + 36), Tag4 ''WAVE'', Tag4 ''fmt '', U32 16, x, U16 1, U32 24000,
      U32 48000, U16 2, U16 16, Tag4 ''data'', U32 n]"
  "(wavHeaderFields n)[6 := x] =
     [Tag4 ''RIFF'', U32 (n + 36), Tag4 ''WAVE'', Tag4 ''fmt '', U32 16, U16 1, x, U32 24000,
      U32 48000, U16 2, U16 16, Tag4 ''data'', U32 n]"
  "(wavHeaderFields n)[7 := x] =
     [Tag4 ''RIFF'', U32 (n + 36), Tag4 ''WAVE'', Tag4 ''fmt '', U32 16, U16 1, U16 1, x,
      U32 48000, U16 2, U16 16, Tag4 ''data'', U32 n]"
  "(wavHeaderFields n)[10 := x] =
     [Tag4 ''RIFF'', U32 (n + 36), Tag4 ''WAVE'', Tag4 ''fmt '', U32 16, U16 1, U16 1, U32 24000,
      U32 48000, U16 2, x, Tag4 ''data'', U32 n]"
  by (simp_all add: wavHeaderFields_def eval_nat_numeral)

lemma validate_written_header:
  "validateWAVFormat False (concat (map encodeLE (wavHeaderFields n)) @ pcm) = None"
  by (simp add: validateWAVFormat_def wavHeaderFields_def binaryReadHeader_fields)

text \<open>
  \<^bold>\<open>C4.\<close> The file that the encoder writes passes \<^verbatim>\<open>validateWAVFormat\<close>. Replacing
  one of the four format fields of the written header by another value makes the
  validation fail, with an error of its own for each field that carries the value found:
  audio format (field 5 of the header), channel count (field 6), sample rate (field 7)
  and bits per sample (field 10).
\<close>

theorem written_header_validates:
  "validateWAVFormat False (Content (snd (encodeWAV pcm))) = None
   \<and> (fmt \<noteq> 1 \<longrightarrow>
        validateWAVFormat False
          (concat (map encodeLE ((wavHeaderFields (of_nat (length pcm)))[5 := U16 fmt])) @ pcm)
        = Some (ErrNotPCM fmt))
   \<and> (channels \<noteq> 1 \<longrightarrow>
        validateWAVFormat False
          (concat (map encodeLE ((wavHeaderFields (of_nat (length pcm)))[6 := U16 channels])) @ pcm)
        = Some (ErrNotMono channels))
   \<and> (rate \<noteq> 24000 \<longrightarrow>
        validateWAVFormat False
          (concat (map encodeLE ((wavHeaderFields (of_nat (length pcm)))[7 := U32 rate])) @ pcm)
        = Some (ErrSampleRate rate))
   \<and> (bits \<noteq> 16 \<longrightarrow>
        validateWAVFormat False
          (concat (map encodeLE ((wavHeaderFields (of_nat (length pcm)))[10 := U16 bits])) @ pcm)
        = Some (ErrNot16Bit bits))"
proof (intro conjI impI)
  show "validateWAVFormat False (Content (snd (encodeWAV pcm))) = None"
    by (simp add: encodeWAV_eq validate_written_header del: map_append concat_append)
next
  assume "fmt \<noteq> 1"
  then show "validateWAVFormat False
          (concat (map encodeLE ((wavHeaderFields (of_nat (length pcm)))[5 := U16 fmt])) @ pcm)
        = Some (ErrNotPCM fmt)"
    by (simp add: validateWAVFormat_def wavHeaderFields_update binaryReadHeader_fields)
next
  assume "channels \<noteq> 1"
  then show "validateWAVFormat False
          (concat (map encodeLE ((wavHeaderFields (of_nat (length pcm)))[6 := U16 channels])) @ pcm)
        = Some (ErrNotMono channels)"
    by (simp add: validateWAVFormat_def wavHeaderFields_update binaryReadHeader_fields)
next
  assume "rate \<noteq> 24000"
  then show "validateWAVFormat False
          (concat (map encodeLE ((wavHeaderFields (of_nat (length pcm)))[7 := U32 rate])) @ pcm)
        = Some (ErrSampleRate rate)"
    by (simp add: validateWAVFormat_def wavHeaderFields_update binaryReadHeader_fields)
next
  assume "bits \<noteq> 16"
  then show "validateWAVFormat False
          (concat (map encodeLE ((wavHeaderFields (of_nat (length pcm)))[10 := U16 bits])) @ pcm)
        = Some (ErrNot16Bit bits)"
    by (simp add: validateWAVFormat_def wavHeaderFields_update binaryReadHeader_fields)
qed

theorem written_header_validates_witness:
  "validateWAVFormat False (Content (snd (encodeWAV [1, 2, 3, 4]))) = None
   \<and> validateWAVFormat False
        (concat (map encodeLE ((wavHeaderFields 4)[5 := U16 3])) @ [1, 2, 3, 4])
      = Some (ErrNotPCM 3)
   \<and> validateWAVFormat False
        (concat (map encodeLE ((wavHeaderFields 4)[6 := U16 2])) @ [1, 2, 3, 4])
      = Some (ErrNotMono 2)
   \<and> validateWAVFormat False
        (concat (map encodeLE ((wavHeaderFields 4)[7 := U32 44100])) @ [1, 2, 3, 4])
      = Some (ErrSampleRate 44100)
   \<and> validateWAVFormat False
        (concat (map encodeLE ((wavHeaderFields 4)[10 := U16 8])) @ [1, 2, 3, 4])
      = Some (ErrNot16Bit 8)"
  using written_header_validates [of "[1, 2, 3, 4]" 3 2 44100 8] by simp

section \<open>Properties of the inbound reassembler\<close>

lemma handleAudioChunk_buffered:
  "bufferedAudio (handleAudioChunk chunk c) key =
     (if chunkKey chunk = key then bufferedAudio c key @ Data chunk else bufferedAudio c key)"
  by (simp add: handleAudioChunk_def bufferedAudio_def chunkKey_def RecordAudioChunk_def Let_def
      split: option.splits)

lemma handleAudioChunk_present:
  "AudioBuffer (handleAudioChunk chunk c) key = None \<longleftrightarrow>
     AudioBuffer c key = None \<and> chunkKey chunk \<noteq> key"
  by (simp add: handleAudioChunk_def chunkKey_def RecordAudioChunk_def Let_def)

lemma handleAudioChunk_Files [simp]: "Files (handleAudioChunk chunk c) = Files c"
  by (simp add: handleAudioChunk_def RecordAudioChunk_def Let_def)

lemma deliver_buffered:
  "bufferedAudio (deliver chunks c) key =
     bufferedAudio c key @ concat (map Data (filter (\<lambda>ch. chunkKey ch = key) chunks))"
  by (induction chunks arbitrary: c) (simp_all add: handleAudioChunk_buffered)

lemma deliver_present:
  "AudioBuffer (deliver chunks c) key = None \<longleftrightarrow>
     AudioBuffer c key = None \<and> (\<forall>ch \<in> set chunks. chunkKey ch \<noteq> key)"
  by (induction chunks arbitrary: c) (auto simp: handleAudioChunk_present)

lemma deliver_Files [simp]: "Files (deliver chunks c) = Files c"
  by (induction chunks arbitrary: c) simp_all

lemma saveAudioOnly_success:
  assumes "AudioBuffer c (audioKey r i) = Some m" "AudioData m \<noteq> []"
  shows "saveAudioOnly DiskOK r i path c =
     (None, c\<lparr>Files := (Files c)(path \<mapsto>
                  concat (map encodeLE (wavHeaderFields (of_nat (length (AudioData m)))))
                  @ AudioData m),
              AudioBuffer := (AudioBuffer c)(audioKey r i := None)\<rparr>)"
  using assms
  by (simp add: saveAudioOnly_def osCreate_def writeWAVHeader_def writeFields_never_fails
      fileWrite_def Let_def)

text \<open>
  Every error return of \<^verbatim>\<open>saveAudioOnly\<close> leaves the accumulation map as it found it.
\<close>

lemma saveAudioOnly_failure_keeps_buffer:
  "fst (saveAudioOnly disk r i path c) \<noteq> None \<Longrightarrow>
   AudioBuffer (snd (saveAudioOnly disk r i path c)) = AudioBuffer c"
  by (auto simp: saveAudioOnly_def Let_def split: option.splits sum.splits prod.splits if_splits)

text \<open>
  \<^bold>\<open>C1\<close>, as stated, fails: the map key is the two identifiers joined by an
  underscore, so the distinct streams \<open>(a_b, c)\<close> and \<open>(a, b_c)\<close> share the key
  \<open>a_b_c\<close>. One fragment for each, and the drain of the first stream writes both
  payloads.
\<close>

theorem reassembly_key_collision:
  "(''a_b'', ''c'') \<noteq> (''a'', ''b_c'') \<and>
   (let c = deliver [\<lparr>ResponseID = ''a_b'', ItemID = ''c'', OutputIndex = 0, ContentIndex = 0,
                      Data = [1]\<rparr>,
                     \<lparr>ResponseID = ''a'', ItemID = ''b_c'', OutputIndex = 0, ContentIndex = 0,
                      Data = [2]\<rparr>]
              (NewChatClient DefaultConfig);
        r = saveAudioOnly DiskOK ''a_b'' ''c'' ''out.wav'' c
    in fst r = None \<and> Files (snd r) ''out.wav'' = Some (Content (snd (encodeWAV [1, 2])))
       \<and> Files (snd r) ''out.wav'' \<noteq> Some (Content (snd (encodeWAV [1]))))"
  by (simp add: handleAudioChunk_def audioKey_def NewChatClient_def RecordAudioChunk_def
       saveAudioOnly_def osCreate_def writeWAVHeader_def writeFields_never_fails fileWrite_def
       encodeWAV_eq Let_def)

text \<open>
  \<^bold>\<open>C1\<close>, amended. Take any fragments in delivery order, for any number of streams
  interleaved in any way, none of them a foreign stream whose joined key equals the
  joined key of stream \<open>(r, i)\<close>. If the buffer of \<open>(r, i)\<close> was absent before and the
  fragments of \<open>(r, i)\<close> carry at least one byte, then the drain of \<open>(r, i)\<close> on a disk
  that does not fail succeeds, the file holds the container of exactly the payloads of
  the fragments of \<open>(r, i)\<close>, concatenated in delivery order, and the entry is gone.
\<close>

theorem reassembly_in_delivery_order:
  assumes fresh: "AudioBuffer c (audioKey r i) = None"
    and nocollision:
      "\<forall>ch \<in> set chunks. chunkKey ch = audioKey r i \<longrightarrow> ResponseID ch = r \<and> ItemID ch = i"
    and nonempty:
      "concat (map Data (filter (\<lambda>ch. ResponseID ch = r \<and> ItemID ch = i) chunks)) \<noteq> []"
  shows "fst (saveAudioOnly DiskOK r i path (deliver chunks c)) = None
    \<and> Files (snd (saveAudioOnly DiskOK r i path (deliver chunks c))) path =
        Some (Content (snd (encodeWAV
          (concat (map Data (filter (\<lambda>ch. ResponseID ch = r \<and> ItemID ch = i) chunks))))))
    \<and> drop 44 (Content (snd (encodeWAV
          (concat (map Data (filter (\<lambda>ch. ResponseID ch = r \<and> ItemID ch = i) chunks)))))) =
        concat (map Data (filter (\<lambda>ch. ResponseID ch = r \<and> ItemID ch = i) chunks))
    \<and> AudioBuffer (snd (saveAudioOnly DiskOK r i path (deliver chunks c))) (audioKey r i) = None"
proof -
  let ?sel = "filter (\<lambda>ch. ResponseID ch = r \<and> ItemID ch = i) chunks"
  have same: "filter (\<lambda>ch. chunkKey ch = audioKey r i) chunks = ?sel"
    using nocollision by (intro filter_cong) (auto simp: chunkKey_def)
  have "bufferedAudio c (audioKey r i) = []"
    using fresh by (simp add: bufferedAudio_def)
  then have data: "bufferedAudio (deliver chunks c) (audioKey r i) = concat (map Data ?sel)"
    by (simp add: deliver_buffered same)
  with nonempty obtain m where m: "AudioBuffer (deliver chunks c) (audioKey r i) = Some m"
    and d: "AudioData m = concat (map Data ?sel)"
    by (auto simp: bufferedAudio_def split: option.splits)
  from nonempty d have ne: "AudioData m \<noteq> []" by simp
  show ?thesis
    by (simp add: saveAudioOnly_success [OF m ne] d encodeWAV_eq length_wavHeader
        del: map_append concat_append)
qed

text \<open>
  Two streams \<open>(r1, i1)\<close> and \<open>(r2, i2)\<close>, three fragments each, delivered in turn.
\<close>

theorem reassembly_in_delivery_order_witness:
  "(let chunks =
          [\<lparr>ResponseID = ''r1'', ItemID = ''i1'', OutputIndex = 0, ContentIndex = 0, Data = [1, 2]\<rparr>,
           \<lparr>ResponseID = ''r2'', ItemID = ''i2'', OutputIndex = 0, ContentIndex = 0, Data = [7]\<rparr>,
           \<lparr>ResponseID = ''r1'', ItemID = ''i1'', OutputIndex = 0, ContentIndex = 0, Data = [3]\<rparr>,
           \<lparr>ResponseID = ''r2'', ItemID = ''i2'', OutputIndex = 0, ContentIndex = 0, Data = [8, 9]\<rparr>,
           \<lparr>ResponseID = ''r1'', ItemID = ''i1'', OutputIndex = 0, ContentIndex = 0, Data = [4, 5]\<rparr>,
           \<lparr>ResponseID = ''r2'', ItemID = ''i2'', OutputIndex = 0, ContentIndex = 0, Data = [10]\<rparr>];
        r = saveAudioOnly DiskOK ''r1'' ''i1'' ''out.wav'' (deliver chunks (NewChatClient DefaultConfig))
    in fst r = None
       \<and> Files (snd r) ''out.wav'' = Some (Content (snd (encodeWAV [1, 2, 3, 4, 5])))
       \<and> drop 44 (Content (snd (encodeWAV [1, 2, 3, 4, 5]))) = [1, 2, 3, 4, 5]
       \<and> AudioBuffer (snd r) ''r1_i1'' = None)"
  using reassembly_in_delivery_order
    [of "NewChatClient DefaultConfig" "''r1''" "''i1''"
        "[\<lparr>ResponseID = ''r1'', ItemID = ''i1'', OutputIndex = 0, ContentIndex = 0, Data = [1, 2]\<rparr>,
          \<lparr>ResponseID = ''r2'', ItemID = ''i2'', OutputIndex = 0, ContentIndex = 0, Data = [7]\<rparr>,
          \<lparr>ResponseID = ''r1'', ItemID = ''i1'', OutputIndex = 0, ContentIndex = 0, Data = [3]\<rparr>,
          \<lparr>ResponseID = ''r2'', ItemID = ''i2'', OutputIndex = 0, ContentIndex = 0, Data = [8, 9]\<rparr>,
          \<lparr>ResponseID = ''r1'', ItemID = ''i1'', OutputIndex = 0, ContentIndex = 0, Data = [4, 5]\<rparr>,
          \<lparr>ResponseID = ''r2'', ItemID = ''i2'', OutputIndex = 0, ContentIndex = 0, Data = [10]\<rparr>]"
        "''out.wav''"]
  by (simp add: NewChatClient_def chunkKey_def audioKey_def Let_def)

text \<open>
  \<^bold>\<open>C7.\<close> The buffer of stream \<open>(r1, i1)\<close> holds two bytes and the output file cannot
  be created: \<^verbatim>\<open>saveAudioOnly\<close> returns the error and the entry is still in the map,
  with its bytes.
\<close>

theorem persistence_failure_keeps_buffer:
  "(let c = handleAudioChunk \<lparr>ResponseID = ''r1'', ItemID = ''i1'', OutputIndex = 0,
                             ContentIndex = 0, Data = [1, 2]\<rparr>
              (NewChatClient DefaultConfig);
        r = saveAudioOnly (CreateFails ''permission denied'') ''r1'' ''i1'' ''out.wav'' c
    in fst r = Some (ErrCreateAudioFile ''permission denied'')
       \<and> map_option AudioData (AudioBuffer (snd r) ''r1_i1'') = Some [1, 2])"
  by (simp add: handleAudioChunk_def audioKey_def NewChatClient_def RecordAudioChunk_def
       saveAudioOnly_def osCreate_def Let_def)

section \<open>Properties of the payload decoding\<close>

lemma digit_facts:
  "d < 10 \<Longrightarrow> isDigit (digitChar d) \<and> digitVal (digitChar d) = d"
proof -
  assume "d < 10"
  then have "d \<in> {0, 1, 2, 3, 4, 5, 6, 7, 8, 9}" by auto
  then show ?thesis
    by (auto simp: isDigit_def digitVal_def digitChar_def)
qed

lemma isDigit_not_sign: "isDigit c \<Longrightarrow> c \<noteq> CHR ''+'' \<and> c \<noteq> CHR ''-''"
  by (auto simp: isDigit_def)

lemma parseDigits_snoc:
  "parseDigits n (xs @ [c]) =
     (case parseDigits n xs of Inl e \<Rightarrow> Inl e | Inr m \<Rightarrow> parseDigits m [c])"
  by (induction xs arbitrary: n) (simp_all)

lemma parseDigits_decimal:
  "n \<le> maxUint64 \<Longrightarrow> parseDigits 0 (decimal n) = Inr n"
proof (induction n rule: decimal.induct)
  case (1 n)
  show ?case
  proof (cases "n < 10")
    case True
    then show ?thesis
      using digit_facts [of n] by (simp add: decimal.simps [of n] maxUint64_def)
  next
    case False
    have d: "n mod 10 < 10" by simp
    have le: "n div 10 \<le> maxUint64" using "1.prems" by (simp add: maxUint64_def)
    have ih: "parseDigits 0 (decimal (n div 10)) = Inr (n div 10)"
      using "1.IH" [OF False le] .
    have small: "\<not> n div 10 \<ge> maxUint64 div 10 + 1"
      using "1.prems" by (simp add: maxUint64_def)
    have recompose: "n div 10 * 10 + n mod 10 = n" by simp
    show ?thesis
      using False digit_facts [OF d] small "1.prems"
      by (simp add: decimal.simps [of n] parseDigits_snoc ih recompose)
  qed
qed

lemma decimal_digits: "c \<in> set (decimal n) \<Longrightarrow> isDigit c"
proof (induction n rule: decimal.induct)
  case (1 n)
  then show ?case
    using digit_facts [of n] digit_facts [of "n mod 10"]
    by (cases "n < 10") (auto simp: decimal.simps [of n])
qed

lemma decimal_nonempty: "decimal n \<noteq> []"
  by (subst decimal.simps) simp

lemma hd_decimal: "hd (decimal n) \<noteq> CHR ''+'' \<and> hd (decimal n) \<noteq> CHR ''-''"
  using decimal_digits [of "hd (decimal n)" n] decimal_nonempty [of n] isDigit_not_sign
  by (metis hd_in_set)

lemma Atoi_decimal: "n < 2 ^ 63 \<Longrightarrow> Atoi (decimal n) = Inr (int n)"
  using hd_decimal [of n] decimal_nonempty [of n] parseDigits_decimal [of n]
  by (simp add: Atoi_def ParseUint_def maxUint64_def Let_def)

lemma Atoi_decimal_range: "n \<ge> 2 ^ 63 \<Longrightarrow> n \<le> maxUint64 \<Longrightarrow> Atoi (decimal n) = Inl ErrRange"
  using hd_decimal [of n] decimal_nonempty [of n] parseDigits_decimal [of n]
  by (simp add: Atoi_def ParseUint_def maxUint64_def Let_def)

lemma Atoi_minus_decimal: "n \<le> 2 ^ 63 \<Longrightarrow> Atoi (CHR ''-'' # decimal n) = Inr (- int n)"
  using decimal_nonempty [of n] parseDigits_decimal [of n]
  by (simp add: Atoi_def ParseUint_def maxUint64_def Let_def)

lemma HasPrefix_append: "HasPrefix (p @ s) p"
  by (simp add: HasPrefix_def)

lemma HasSuffix_append: "HasSuffix (s @ x) x"
  by (simp add: HasSuffix_def)

lemma TrimPrefix_append: "TrimPrefix (p @ s) p = s"
  by (simp add: TrimPrefix_def HasPrefix_append)

lemma TrimSuffix_append: "TrimSuffix (s @ x) x = s"
  by (simp add: TrimSuffix_def HasSuffix_append)

lemma decodeDelta_sentinel:
  "decodeDelta maxAlloc (''[trimmed: '' @ s @ '' bytes]'') =
     (case Atoi s of
        Inl err \<Rightarrow> Return (Inl (ErrParseAudioSize err))
      | Inr n \<Rightarrow> (case makeBytes maxAlloc n of
                   Panic msg \<Rightarrow> Panic msg
                 | Return processedData \<Rightarrow> Return (Inr processedData)))"
proof -
  have p: "HasPrefix (''[trimmed: '' @ s @ '' bytes]'') ''[trimmed: ''"
    by (rule HasPrefix_append)
  have s: "HasSuffix (''[trimmed: '' @ s @ '' bytes]'') '' bytes]''"
    using HasSuffix_append [of "''[trimmed: '' @ s" "'' bytes]''"] by simp
  have t: "TrimSuffix (TrimPrefix (''[trimmed: '' @ s @ '' bytes]'') ''[trimmed: '') '' bytes]'' = s"
    by (simp only: TrimPrefix_append TrimSuffix_append)
  show ?thesis
    unfolding decodeDelta_def using p s t by (simp add: Let_def)
qed

lemma decodeDelta_negative:
  assumes "0 < n" "n \<le> 2 ^ 63"
  shows "decodeDelta maxAlloc (''[trimmed: -'' @ decimal n @ '' bytes]'') =
           Panic ''makeslice: len out of range''"
proof -
  have "''[trimmed: -'' @ decimal n @ '' bytes]'' =
        ''[trimmed: '' @ (CHR ''-'' # decimal n) @ '' bytes]''"
    by simp
  then show ?thesis
    using assms
    by (simp only: decodeDelta_sentinel Atoi_minus_decimal) (simp add: makeBytes_def)
qed

lemma parseDigits_overflow:
  "maxUint64 < n \<Longrightarrow> parseDigits 0 (decimal n) = Inl ErrRange"
proof (induction n rule: decimal.induct)
  case (1 n)
  have big: "\<not> n < 10"
    using "1.prems" by (simp add: maxUint64_def)
  have d: "n mod 10 < 10" by simp
  have recompose: "n div 10 * 10 + n mod 10 = n" by simp
  show ?case
  proof (cases "maxUint64 < n div 10")
    case True
    have "parseDigits 0 (decimal (n div 10)) = Inl ErrRange"
      using "1.IH" [OF big True] .
    then show ?thesis
      using big by (simp add: decimal.simps [of n] parseDigits_snoc)
  next
    case False
    then have "parseDigits 0 (decimal (n div 10)) = Inr (n div 10)"
      by (simp add: parseDigits_decimal)
    then show ?thesis
      using big digit_facts [OF d] "1.prems"
      by (simp add: decimal.simps [of n] parseDigits_snoc recompose)
  qed
qed

lemma Atoi_decimal_large: "2 ^ 63 \<le> n \<Longrightarrow> Atoi (decimal n) = Inl ErrRange"
proof (cases "n \<le> maxUint64")
  case True
  assume "2 ^ 63 \<le> n"
  then show ?thesis
    using True by (rule Atoi_decimal_range)
next
  case False
  then have "parseDigits 0 (decimal n) = Inl ErrRange"
    by (simp add: parseDigits_overflow)
  then show ?thesis
    using hd_decimal [of n] decimal_nonempty [of n]
    by (simp add: Atoi_def ParseUint_def Let_def)
qed

lemma handleAudioChunk_AudioChannel:
  "handleAudioChunk chunk (c\<lparr>AudioChannel := q\<rparr>) = (handleAudioChunk chunk c)\<lparr>AudioChannel := q\<rparr>"
  by (simp add: handleAudioChunk_def RecordAudioChunk_def Let_def)

lemma audioProcessingStep_queue:
  "(audioProcessingStep ^^ length q) (c\<lparr>AudioChannel := q @ rest\<rparr>) =
     (deliver q c)\<lparr>AudioChannel := rest\<rparr>"
proof (induction q arbitrary: c)
  case Nil
  then show ?case by simp
next
  case (Cons chunk q)
  have "audioProcessingStep (c\<lparr>AudioChannel := (chunk # q) @ rest\<rparr>) =
          (handleAudioChunk chunk c)\<lparr>AudioChannel := q @ rest\<rparr>"
    by (simp add: audioProcessingStep_def handleAudioChunk_AudioChannel)
  then show ?case
    using Cons.IH [of "handleAudioChunk chunk c"]
    by (simp add: funpow_swap1)
qed

lemma audioProcessingStep_turns:
  assumes "k \<le> length q"
  shows "(audioProcessingStep ^^ k) (c\<lparr>AudioChannel := q @ rest\<rparr>) =
           (deliver (take k q) c)\<lparr>AudioChannel := drop k q @ rest\<rparr>"
proof -
  have eq: "take k q @ drop k q @ rest = q @ rest"
    by (simp only: append_assoc [symmetric] append_take_drop_id)
  have len: "length (take k q) = k"
    using assms by simp
  show ?thesis
    using audioProcessingStep_queue [where q = "take k q" and c = c and rest = "drop k q @ rest"]
    by (simp only: eq len)
qed

text \<open>
  \<^bold>\<open>C3\<close>, as stated, fails: \<open>N = 2 ^ 63\<close> is a non-negative decimal integer, but
  \<^verbatim>\<open>strconv.Atoi\<close> does not fit it in an \<^verbatim>\<open>int\<close> and \<^verbatim>\<open>handleAudioResponse\<close> returns
  the parse error; nothing is queued.
\<close>

theorem trimmed_count_out_of_range:
  "decimal (2 ^ 63) = ''9223372036854775808''
   \<and> handleAudioResponse (2 ^ 48) ChannelReady
        (Some \<lparr> MsgType = ''response.audio.delta'', MsgResponseID = ''r1'', MsgItemID = ''i1'',
                 MsgOutputIndex = 0, MsgContentIndex = 0,
                 Delta = ''[trimmed: 9223372036854775808 bytes]'' \<rparr>)
        (NewChatClient DefaultConfig)
      = Return (Some (ErrParseAudioSize ErrRange), NewChatClient DefaultConfig)"
proof -
  have "decimal (2 ^ 63) = ''9223372036854775808''"
    by (simp add: decimal.simps digitChar_def)
  moreover have "decodeDelta (2 ^ 48) ''[trimmed: 9223372036854775808 bytes]'' =
      Return (Inl (ErrParseAudioSize ErrRange))"
    using decodeDelta_sentinel [of "2 ^ 48" "''9223372036854775808''"]
    by (simp add: Atoi_def ParseUint_def isDigit_def digitVal_def maxUint64_def)
  ultimately show ?thesis
    by (simp add: handleAudioResponse_def)
qed

text \<open>
  \<^bold>\<open>C3\<close>, amended. Take a frame whose \<open>delta\<close> is \<open>[trimmed: N bytes]\<close>, \<open>N\<close> written as
  \<^verbatim>\<open>%d\<close> prints it. If \<open>N\<close> fits an \<^verbatim>\<open>int\<close> (\<open>N < 2 ^ 63\<close>) and the runtime can allocate
  \<open>N\<close> bytes, the frame decodes to a fragment of exactly \<open>N\<close> zero bytes with the frame's
  identifiers: when the \<^verbatim>\<open>select\<close> takes the channel the fragment is queued behind what
  \<^verbatim>\<open>c.AudioChannel\<close> holds and \<^verbatim>\<open>handleAudioResponse\<close> returns \<^verbatim>\<open>nil\<close>, and when it sees
  \<^verbatim>\<open>c.Done\<close> first nothing is queued and the error is the shutdown error. Each turn of
  \<^verbatim>\<open>audioProcessingRoutine\<close> that receives from the channel handles the oldest queued
  fragment: after \<open>k\<close> such turns, \<open>k\<close> at most the number of fragments queued ahead, the
  fragment is still queued, last in the channel, and the next turn after those of all
  the fragments ahead empties the channel and appends exactly \<open>N\<close> zero bytes to the buffer
  of the frame's stream key. If \<open>N\<close> fits an \<^verbatim>\<open>int\<close> but is more than the runtime can
  allocate, \<^verbatim>\<open>make\<close> panics. If \<open>N\<close> is \<open>2 ^ 63\<close> or more, whatever its size,
  \<^verbatim>\<open>strconv.Atoi\<close> fails with a range error and \<^verbatim>\<open>handleAudioResponse\<close> returns the
  parse error with the client unchanged.
\<close>

theorem trimmed_sentinel_zero_bytes:
  "(let frame = Some (m\<lparr>Delta := ''[trimmed: '' @ decimal n @ '' bytes]''\<rparr>);
        chunk = \<lparr> ResponseID = MsgResponseID m, ItemID = MsgItemID m,
                   OutputIndex = MsgOutputIndex m, ContentIndex = MsgContentIndex m,
                   Data = replicate n 0 \<rparr>;
        queued = c\<lparr>AudioChannel := AudioChannel c @ [chunk]\<rparr>;
        ahead = length (AudioChannel c);
        key = audioKey (MsgResponseID m) (MsgItemID m)
    in (n < 2 ^ 63 \<and> int n \<le> maxAlloc \<longrightarrow>
          handleAudioResponse maxAlloc ChannelReady frame c = Return (None, queued)
          \<and> handleAudioResponse maxAlloc DoneFirst frame c = Return (Some ErrClientShutdown, c))
       \<and> (\<forall>k \<le> ahead.
            (audioProcessingStep ^^ k) queued =
              (deliver (take k (AudioChannel c)) c)
                \<lparr>AudioChannel := drop k (AudioChannel c) @ [chunk]\<rparr>)
       \<and> AudioChannel ((audioProcessingStep ^^ Suc ahead) queued) = []
       \<and> bufferedAudio ((audioProcessingStep ^^ Suc ahead) queued) key =
           bufferedAudio ((audioProcessingStep ^^ ahead) queued) key @ replicate n 0
       \<and> (n < 2 ^ 63 \<and> maxAlloc < int n \<longrightarrow>
            handleAudioResponse maxAlloc sel frame c = Panic ''makeslice: len out of range'')
       \<and> (2 ^ 63 \<le> n \<longrightarrow>
            handleAudioResponse maxAlloc sel frame c =
              Return (Some (ErrParseAudioSize ErrRange), c)))"
proof -
  let ?frame = "Some (m\<lparr>Delta := ''[trimmed: '' @ decimal n @ '' bytes]''\<rparr>)"
  let ?chunk = "\<lparr> ResponseID = MsgResponseID m, ItemID = MsgItemID m,
                   OutputIndex = MsgOutputIndex m, ContentIndex = MsgContentIndex m,
                   Data = replicate n 0 \<rparr>"
  let ?queued = "c\<lparr>AudioChannel := AudioChannel c @ [?chunk]\<rparr>"
  let ?ahead = "length (AudioChannel c)"
  let ?key = "audioKey (MsgResponseID m) (MsgItemID m)"
  have decoded: "decodeDelta maxAlloc (''[trimmed: '' @ decimal n @ '' bytes]'') =
          Return (Inr (replicate n 0))" if "n < 2 ^ 63" "int n \<le> maxAlloc"
    using that by (simp only: decodeDelta_sentinel Atoi_decimal) (simp add: makeBytes_def)
  have refused: "decodeDelta maxAlloc (''[trimmed: '' @ decimal n @ '' bytes]'') =
          Panic ''makeslice: len out of range''" if "n < 2 ^ 63" "maxAlloc < int n"
    using that by (simp only: decodeDelta_sentinel Atoi_decimal) (simp add: makeBytes_def)
  have range: "decodeDelta maxAlloc (''[trimmed: '' @ decimal n @ '' bytes]'') =
          Return (Inl (ErrParseAudioSize ErrRange))" if "2 ^ 63 \<le> n"
    using that by (simp only: decodeDelta_sentinel Atoi_decimal_large) simp
  have a: "n < 2 ^ 63 \<and> int n \<le> maxAlloc \<longrightarrow>
          handleAudioResponse maxAlloc ChannelReady ?frame c = Return (None, ?queued)
          \<and> handleAudioResponse maxAlloc DoneFirst ?frame c = Return (Some ErrClientShutdown, c)"
    using decoded by (simp add: handleAudioResponse_def)
  have turns: "(audioProcessingStep ^^ k) ?queued =
              (deliver (take k (AudioChannel c)) c)
                \<lparr>AudioChannel := drop k (AudioChannel c) @ [?chunk]\<rparr>" if "k \<le> ?ahead" for k
    using audioProcessingStep_turns [OF that, where c = c and rest = "[?chunk]"] by simp
  then have b: "\<forall>k \<le> ?ahead.
            (audioProcessingStep ^^ k) ?queued =
              (deliver (take k (AudioChannel c)) c)
                \<lparr>AudioChannel := drop k (AudioChannel c) @ [?chunk]\<rparr>"
    by blast
  have before: "(audioProcessingStep ^^ ?ahead) ?queued =
      (deliver (AudioChannel c) c)\<lparr>AudioChannel := [?chunk]\<rparr>"
    using turns [of ?ahead] by simp
  have after: "(audioProcessingStep ^^ Suc ?ahead) ?queued =
      (handleAudioChunk ?chunk (deliver (AudioChannel c) c))\<lparr>AudioChannel := []\<rparr>"
    by (simp only: funpow.simps o_apply before)
       (simp add: audioProcessingStep_def handleAudioChunk_AudioChannel)
  have same: "bufferedAudio (x\<lparr>AudioChannel := q\<rparr>) key = bufferedAudio x key" for x q key
    by (simp add: bufferedAudio_def)
  have c: "AudioChannel ((audioProcessingStep ^^ Suc ?ahead) ?queued) = []"
    by (simp only: after) simp
  have d: "bufferedAudio ((audioProcessingStep ^^ Suc ?ahead) ?queued) ?key =
           bufferedAudio ((audioProcessingStep ^^ ?ahead) ?queued) ?key @ replicate n 0"
    by (simp only: after before same) (simp add: handleAudioChunk_buffered chunkKey_def)
  have e: "n < 2 ^ 63 \<and> maxAlloc < int n \<longrightarrow>
            handleAudioResponse maxAlloc sel ?frame c = Panic ''makeslice: len out of range''"
    using refused by (simp add: handleAudioResponse_def)
  have f: "2 ^ 63 \<le> n \<longrightarrow>
            handleAudioResponse maxAlloc sel ?frame c =
              Return (Some (ErrParseAudioSize ErrRange), c)"
    using range by (simp add: handleAudioResponse_def)
  from a b c d e f show ?thesis
    unfolding Let_def by blast
qed

theorem trimmed_sentinel_zero_bytes_witness:
  "decimal 512 = ''512'' \<and> (512 :: nat) < 2 ^ 63 \<and> int 512 \<le> 2 ^ 48
   \<and> handleAudioResponse (2 ^ 48) ChannelReady
        (Some \<lparr> MsgType = ''response.audio.delta'', MsgResponseID = ''r1'', MsgItemID = ''i1'',
                 MsgOutputIndex = 0, MsgContentIndex = 0,
                 Delta = ''[trimmed: 512 bytes]'' \<rparr>)
        ((NewChatClient DefaultConfig)\<lparr>AudioChannel :=
           [\<lparr> ResponseID = ''r1'', ItemID = ''i1'', OutputIndex = 0, ContentIndex = 0,
              Data = [1, 2] \<rparr>]\<rparr>)
      = Return (None,
          (NewChatClient DefaultConfig)\<lparr>AudioChannel :=
             [\<lparr> ResponseID = ''r1'', ItemID = ''i1'', OutputIndex = 0, ContentIndex = 0,
                Data = [1, 2] \<rparr>,
              \<lparr> ResponseID = ''r1'', ItemID = ''i1'', OutputIndex = 0, ContentIndex = 0,
                Data = replicate 512 0 \<rparr>]\<rparr>)
   \<and> bufferedAudio
        ((audioProcessingStep ^^ 2)
           ((NewChatClient DefaultConfig)\<lparr>AudioChannel :=
             [\<lparr> ResponseID = ''r1'', ItemID = ''i1'', OutputIndex = 0, ContentIndex = 0,
                Data = [1, 2] \<rparr>,
              \<lparr> ResponseID = ''r1'', ItemID = ''i1'', OutputIndex = 0, ContentIndex = 0,
                Data = replicate 512 0 \<rparr>]\<rparr>))
        ''r1_i1''
      = [1, 2] @ replicate 512 0
   \<and> decimal 18446744073709551616 = ''18446744073709551616'' \<and> (2 :: nat) ^ 63 \<le> 18446744073709551616
   \<and> handleAudioResponse (2 ^ 48) ChannelReady
        (Some \<lparr> MsgType = ''response.audio.delta'', MsgResponseID = ''r1'', MsgItemID = ''i1'',
                 MsgOutputIndex = 0, MsgContentIndex = 0,
                 Delta = ''[trimmed: 18446744073709551616 bytes]'' \<rparr>)
        (NewChatClient DefaultConfig)
      = Return (Some (ErrParseAudioSize ErrRange), NewChatClient DefaultConfig)
   \<and> (1125899906842624 :: nat) < 2 ^ 63 \<and> (2 :: int) ^ 48 < int 1125899906842624
   \<and> decimal 1125899906842624 = ''1125899906842624''
   \<and> handleAudioResponse (2 ^ 48) ChannelReady
        (Some \<lparr> MsgType = ''response.audio.delta'', MsgResponseID = ''r1'', MsgItemID = ''i1'',
                 MsgOutputIndex = 0, MsgContentIndex = 0,
                 Delta = ''[trimmed: 1125899906842624 bytes]'' \<rparr>)
        (NewChatClient DefaultConfig)
      = Panic ''makeslice: len out of range''"
proof -
  let ?m = "\<lparr> MsgType = ''response.audio.delta'', MsgResponseID = ''r1'',
               MsgItemID = ''i1'', MsgOutputIndex = 0, MsgContentIndex = 0, Delta = [] \<rparr>"
  let ?old = "\<lparr> ResponseID = ''r1'', ItemID = ''i1'', OutputIndex = 0, ContentIndex = 0,
                Data = [1, 2] \<rparr>"
  let ?c = "(NewChatClient DefaultConfig)\<lparr>AudioChannel := [?old]\<rparr>"
  have d: "decimal 512 = ''512''" "decimal 18446744073709551616 = ''18446744073709551616''"
      "decimal 1125899906842624 = ''1125899906842624''"
    by (simp_all add: decimal.simps digitChar_def)
  have n: "(512 :: nat) < 2 ^ 63 \<and> int 512 \<le> 2 ^ 48" "(1 :: nat) \<le> length (AudioChannel ?c)"
      "(2 :: nat) ^ 63 \<le> 18446744073709551616" "(1125899906842624 :: nat) < 2 ^ 63 \<and> (2 :: int) ^ 48 < int 1125899906842624"
    by simp_all
  have key: "audioKey ''r1'' ''i1'' = ''r1_i1''"
    by (simp add: audioKey_def)
  note small = trimmed_sentinel_zero_bytes
      [where m = ?m and n = 512 and c = ?c and maxAlloc = "2 ^ 48" and sel = ChannelReady,
       unfolded Let_def]
  note large = trimmed_sentinel_zero_bytes
      [where m = ?m and n = 18446744073709551616 and c = "NewChatClient DefaultConfig"
         and maxAlloc = "2 ^ 48" and sel = ChannelReady, unfolded Let_def]
  note refused = trimmed_sentinel_zero_bytes
      [where m = ?m and n = 1125899906842624 and c = "NewChatClient DefaultConfig"
         and maxAlloc = "2 ^ 48" and sel = ChannelReady, unfolded Let_def]
  have queued: "handleAudioResponse (2 ^ 48) ChannelReady
        (Some \<lparr> MsgType = ''response.audio.delta'', MsgResponseID = ''r1'', MsgItemID = ''i1'',
                 MsgOutputIndex = 0, MsgContentIndex = 0,
                 Delta = ''[trimmed: 512 bytes]'' \<rparr>) ?c
      = Return (None,
          (NewChatClient DefaultConfig)\<lparr>AudioChannel :=
             [?old, \<lparr> ResponseID = ''r1'', ItemID = ''i1'', OutputIndex = 0, ContentIndex = 0,
                Data = replicate 512 0 \<rparr>]\<rparr>)"
    using small n(1) by (simp add: d)
  have one: "(audioProcessingStep ^^ 1)
           ((NewChatClient DefaultConfig)\<lparr>AudioChannel :=
             [?old, \<lparr> ResponseID = ''r1'', ItemID = ''i1'', OutputIndex = 0, ContentIndex = 0,
                Data = replicate 512 0 \<rparr>]\<rparr>)
        = (deliver [?old] ?c)\<lparr>AudioChannel :=
             [\<lparr> ResponseID = ''r1'', ItemID = ''i1'', OutputIndex = 0, ContentIndex = 0,
                Data = replicate 512 0 \<rparr>]\<rparr>"
    using small [THEN conjunct2, THEN conjunct1, rule_format, of 1] by simp
  have "bufferedAudio
        ((audioProcessingStep ^^ 2)
           ((NewChatClient DefaultConfig)\<lparr>AudioChannel :=
             [?old, \<lparr> ResponseID = ''r1'', ItemID = ''i1'', OutputIndex = 0, ContentIndex = 0,
                Data = replicate 512 0 \<rparr>]\<rparr>))
        ''r1_i1''
      = bufferedAudio ((audioProcessingStep ^^ 1)
           ((NewChatClient DefaultConfig)\<lparr>AudioChannel :=
             [?old, \<lparr> ResponseID = ''r1'', ItemID = ''i1'', OutputIndex = 0, ContentIndex = 0,
                Data = replicate 512 0 \<rparr>]\<rparr>)) ''r1_i1'' @ replicate 512 0"
    using small [THEN conjunct2, THEN conjunct2, THEN conjunct2, THEN conjunct1]
    by (simp add: key numeral_2_eq_2)
  also have "bufferedAudio ((audioProcessingStep ^^ 1)
           ((NewChatClient DefaultConfig)\<lparr>AudioChannel :=
             [?old, \<lparr> ResponseID = ''r1'', ItemID = ''i1'', OutputIndex = 0, ContentIndex = 0,
                Data = replicate 512 0 \<rparr>]\<rparr>)) ''r1_i1'' = [1, 2]"
    by (simp only: one)
       (simp add: bufferedAudio_def handleAudioChunk_def RecordAudioChunk_def audioKey_def
          NewChatClient_def Let_def)
  finally have appended: "bufferedAudio
        ((audioProcessingStep ^^ 2)
           ((NewChatClient DefaultConfig)\<lparr>AudioChannel :=
             [?old, \<lparr> ResponseID = ''r1'', ItemID = ''i1'', OutputIndex = 0, ContentIndex = 0,
                Data = replicate 512 0 \<rparr>]\<rparr>))
        ''r1_i1''
      = [1, 2] @ replicate 512 0" .
  have range: "handleAudioResponse (2 ^ 48) ChannelReady
        (Some \<lparr> MsgType = ''response.audio.delta'', MsgResponseID = ''r1'', MsgItemID = ''i1'',
                 MsgOutputIndex = 0, MsgContentIndex = 0,
                 Delta = ''[trimmed: 18446744073709551616 bytes]'' \<rparr>)
        (NewChatClient DefaultConfig)
      = Return (Some (ErrParseAudioSize ErrRange), NewChatClient DefaultConfig)"
    using large n(3) by (simp add: d)
  have panic: "handleAudioResponse (2 ^ 48) ChannelReady
        (Some \<lparr> MsgType = ''response.audio.delta'', MsgResponseID = ''r1'', MsgItemID = ''i1'',
                 MsgOutputIndex = 0, MsgContentIndex = 0,
                 Delta = ''[trimmed: 1125899906842624 bytes]'' \<rparr>)
        (NewChatClient DefaultConfig)
      = Panic ''makeslice: len out of range''"
    using refused n(4) by (simp add: d)
  from d n queued appended range panic show ?thesis
    by blast
qed


text \<open>
  \<^bold>\<open>C10.\<close> A frame whose \<open>delta\<close> is \<open>[trimmed: -1 bytes]\<close>: \<^verbatim>\<open>strconv.Atoi\<close> accepts
  \<open>-1\<close>, \<^verbatim>\<open>make([]byte, -1)\<close> panics, and \<^verbatim>\<open>handleAudioResponse\<close> does not return an
  error; this holds whatever the other fields, the allocation limit, the scheduler and
  the client state are.
\<close>

theorem negative_trimmed_count_panics:
  "handleAudioResponse maxAlloc sel (Some (m\<lparr>Delta := ''[trimmed: -1 bytes]''\<rparr>)) c
     = Panic ''makeslice: len out of range''"
proof -
  have "decodeDelta maxAlloc ''[trimmed: -1 bytes]'' = Panic ''makeslice: len out of range''"
    using decodeDelta_sentinel [of maxAlloc "''-1''"]
    by (simp add: Atoi_def ParseUint_def isDigit_def digitVal_def maxUint64_def makeBytes_def)
  then show ?thesis
    by (simp add: handleAudioResponse_def)
qed

section \<open>Properties of the lifecycle coordinator\<close>













section \<open>Properties of the receive loop\<close>

text \<open>
  The loop returns as soon as it finds the done signal closed; on a sound connection a
  frame goes to the dispatcher and the loop reads on, and with nothing on the wire the
  loop is waiting in \<^verbatim>\<open>ReadMessage\<close>.
\<close>

lemma receiveRoutine_done: "Done c \<Longrightarrow> receiveRoutine dispatch wire c = (Returned, c)"
  by (subst receiveRoutine.simps) simp

lemma receiveRoutine_frame:
  assumes "\<not> Done c" and "ReadErr c = None"
  shows "receiveRoutine dispatch (ReadMessage message # wire) c =
           (case dispatch message (c\<lparr>Reads := Reads c + 1\<rparr>) of
              Panic msg \<Rightarrow> (Panicked msg, c\<lparr>Reads := Reads c + 1\<rparr>)
            | Return c2 \<Rightarrow> receiveRoutine dispatch wire c2)"
  using assms
  by (subst receiveRoutine.simps)
     (simp add: ConnReadMessage_def Let_def split: go_result.splits)

lemma receiveRoutine_idle:
  assumes "\<not> Done c" and "ReadErr c = None"
  shows "receiveRoutine dispatch [] c = (BlockedInRead, c\<lparr>Reads := Reads c + 1\<rparr>)"
  using assms
  by (subst receiveRoutine.simps) (simp add: ConnReadMessage_def Let_def)

text \<open>
  The loop leaves quietly on a close error with code 1000 or 1001, and records the
  error, calls shutdown and leaves on a close error with any other code.
\<close>

lemma clean_close_returns:
  assumes "\<not> Done c" and "ReadErr c = None" and "ReadErrCount c = 0"
    and "code = 1000 \<or> code = 1001"
  shows "receiveRoutine dispatch (ReadFailed (CloseError code) # wire) c =
           (Returned,
            c\<lparr>Reads := Reads c + 1, ReadErr := Some (CloseError code), ReadErrCount := 1\<rparr>)"
  using assms
  by (subst receiveRoutine.simps)
     (auto simp: ConnReadMessage_def failedRead_def Let_def IsCloseError_def
        CloseNormalClosure_def CloseGoingAway_def)

lemma unexpected_close_shuts_down:
  assumes "\<not> Done c" and "ReadErr c = None" and "ReadErrCount c = 0"
    and "code \<noteq> 1000" and "code \<noteq> 1001"
  shows "receiveRoutine dispatch (ReadFailed (CloseError code) # wire) c =
           (Returned,
            shutdown None
              (RecordError
                 (c\<lparr>Reads := Reads c + 1, ReadErr := Some (CloseError code),
                    ReadErrCount := 1\<rparr>)))"
  using assms
  by (subst receiveRoutine.simps)
     (auto simp: ConnReadMessage_def failedRead_def Let_def IsCloseError_def
        IsUnexpectedCloseError_def isTimeout_def CloseNormalClosure_def CloseGoingAway_def)

text \<open>
  After a failed read the connection keeps its error. When that is a timeout or an
  error that is not a close error, the loop goes round: each read returns the kept
  error and adds one to the count, until the read that panics.
\<close>

lemma first_failed_read:
  assumes "\<not> Done c" and "ReadErr c = None" and "ReadErrCount c = 0"
    and "err = NetError b \<or> err = OtherError"
  shows "receiveRoutine dispatch (ReadFailed err # wire) c =
           receiveRoutine dispatch wire
             (if isTimeout err
              then c\<lparr>Reads := Reads c + 1, ReadErr := Some err, ReadErrCount := 1\<rparr>
              else RecordError (c\<lparr>Reads := Reads c + 1, ReadErr := Some err, ReadErrCount := 1\<rparr>))"
  using assms
  by (subst receiveRoutine.simps)
     (auto simp: ConnReadMessage_def failedRead_def Let_def IsCloseError_def
        IsUnexpectedCloseError_def isTimeout_def)

lemma latched_read_spins:
  assumes "\<not> Done c" and "ReadErr c = Some err" and "err = NetError b \<or> err = OtherError"
    and "ReadErrCount c + k = 999"
  shows "receiveRoutine dispatch wire c =
           (Panicked ''repeated read on failed websocket connection'',
            if isTimeout err
            then c\<lparr>Reads := Reads c + (k + 1), ReadErrCount := 1000\<rparr>
            else c\<lparr>Reads := Reads c + (k + 1), ReadErrCount := 1000,
                   Metrics := (Metrics c)\<lparr>Errors := Errors (Metrics c) + of_nat k\<rparr>\<rparr>)"
  using assms
proof (induction k arbitrary: c)
  case 0
  then show ?case
    by (subst receiveRoutine.simps)
       (auto simp: ConnReadMessage_def failedRead_def Let_def)
next
  case (Suc k)
  let ?c1 = "c\<lparr>Reads := Reads c + 1, ReadErrCount := ReadErrCount c + 1\<rparr>"
  let ?c2 = "if isTimeout err then ?c1 else RecordError ?c1"
  have step: "receiveRoutine dispatch wire c = receiveRoutine dispatch wire ?c2"
    using Suc.prems
    by (subst receiveRoutine.simps)
       (auto simp: ConnReadMessage_def failedRead_def Let_def IsCloseError_def
          IsUnexpectedCloseError_def isTimeout_def)
  have pre: "\<not> Done ?c2" "ReadErr ?c2 = Some err" "ReadErrCount ?c2 + k = 999"
    using Suc.prems by (auto simp: RecordError_def)
  show ?case
    unfolding step
    by (subst Suc.IH [OF pre(1,2) Suc.prems(3) pre(3)])
       (auto simp: RecordError_def)
qed

text \<open>
  \<^bold>\<open>C6\<close> does not hold of \<^verbatim>\<open>receiveRoutine\<close>. On a sound connection with shutdown not
  signalled, let one read fail with a timeout, or with any error that is not a close
  error, whatever the network has after it. The loop does not call shutdown and does
  not return: it goes round, every further \<^verbatim>\<open>ReadMessage\<close> returns the kept error at
  once without reading from the network, and the 1000th read panics. By then an error
  that is not a timeout has been recorded 999 times; the done signal is still open and
  no lifecycle action has happened. So the receive that follows a timeout does not
  block, and an error other than a close error does not trigger shutdown.
\<close>

theorem failed_read_ends_in_panic:
  assumes "\<not> Done c" and "ReadErr c = None" and "ReadErrCount c = 0"
    and "err = NetError timeout \<or> err = OtherError"
  shows "receiveRoutine dispatch (ReadFailed err # wire) c =
           (Panicked ''repeated read on failed websocket connection'',
            if isTimeout err
            then c\<lparr>Reads := Reads c + 1000, ReadErr := Some err, ReadErrCount := 1000\<rparr>
            else c\<lparr>Reads := Reads c + 1000, ReadErr := Some err, ReadErrCount := 1000,
                   Metrics := (Metrics c)\<lparr>Errors := Errors (Metrics c) + 999\<rparr>\<rparr>)
       \<and> ShutdownOnce (snd (receiveRoutine dispatch (ReadFailed err # wire) c)) = ShutdownOnce c
       \<and> Trace (snd (receiveRoutine dispatch (ReadFailed err # wire) c)) = Trace c
       \<and> \<not> Done (snd (receiveRoutine dispatch (ReadFailed err # wire) c))"
proof -
  let ?c1 = "c\<lparr>Reads := Reads c + 1, ReadErr := Some err, ReadErrCount := 1\<rparr>"
  let ?c2 = "if isTimeout err then ?c1 else RecordError ?c1"
  have pre: "\<not> Done ?c2" "ReadErr ?c2 = Some err" "ReadErrCount ?c2 + 998 = 999"
    using assms by (auto simp: RecordError_def)
  have "receiveRoutine dispatch (ReadFailed err # wire) c =
           (Panicked ''repeated read on failed websocket connection'',
            if isTimeout err
            then c\<lparr>Reads := Reads c + 1000, ReadErr := Some err, ReadErrCount := 1000\<rparr>
            else c\<lparr>Reads := Reads c + 1000, ReadErr := Some err, ReadErrCount := 1000,
                   Metrics := (Metrics c)\<lparr>Errors := Errors (Metrics c) + 999\<rparr>\<rparr>)"
    unfolding first_failed_read [OF assms]
    by (subst latched_read_spins [OF pre(1,2) assms(4) pre(3)])
       (auto simp: RecordError_def)
  then show ?thesis
    using assms(1) by simp
qed

theorem failed_read_ends_in_panic_witness:
  "\<not> Done (NewChatClient DefaultConfig) \<and> ReadErr (NewChatClient DefaultConfig) = None
   \<and> ReadErrCount (NewChatClient DefaultConfig) = 0
   \<and> receiveRoutine (\<lambda>message c. Return c)
        [ReadFailed (NetError True), ReadMessage (), ReadFailed (CloseError 1000)]
        (NewChatClient DefaultConfig)
      = (Panicked ''repeated read on failed websocket connection'',
         (NewChatClient DefaultConfig)
           \<lparr>Reads := 1000, ReadErr := Some (NetError True), ReadErrCount := 1000\<rparr>)
   \<and> receiveRoutine (\<lambda>message c. Return c) [ReadFailed OtherError :: unit readResult]
        (NewChatClient DefaultConfig)
      = (Panicked ''repeated read on failed websocket connection'',
         (NewChatClient DefaultConfig)
           \<lparr>Reads := 1000, ReadErr := Some OtherError, ReadErrCount := 1000,
            Metrics := \<lparr> MessagesSent = 0, MessagesReceived = 0, Errors = 999,
                         AudioChunks = 0 \<rparr>\<rparr>)
   \<and> \<not> ShutdownOnce (snd (receiveRoutine (\<lambda>message c. Return c)
          [ReadFailed OtherError :: unit readResult] (NewChatClient DefaultConfig)))"
proof -
  let ?c = "NewChatClient DefaultConfig"
  let ?d = "\<lambda>(message :: unit) c. Return c"
  have sound: "\<not> Done ?c" "ReadErr ?c = None" "ReadErrCount ?c = 0"
    by (simp_all add: NewChatClient_def)
  have fields: "Reads ?c = 0" "\<not> ShutdownOnce ?c"
      "Metrics ?c = \<lparr> MessagesSent = 0, MessagesReceived = 0, Errors = 0, AudioChunks = 0 \<rparr>"
    by (simp_all add: NewChatClient_def)
  have t: "receiveRoutine ?d
        [ReadFailed (NetError True), ReadMessage (), ReadFailed (CloseError 1000)] ?c
      = (Panicked ''repeated read on failed websocket connection'',
         ?c\<lparr>Reads := 1000, ReadErr := Some (NetError True), ReadErrCount := 1000\<rparr>)"
    using failed_read_ends_in_panic [OF sound, of "NetError True" True ?d
        "[ReadMessage (), ReadFailed (CloseError 1000)]"]
    by (simp add: isTimeout_def fields)
  have o: "receiveRoutine ?d [ReadFailed OtherError] ?c
      = (Panicked ''repeated read on failed websocket connection'',
         ?c\<lparr>Reads := 1000, ReadErr := Some OtherError, ReadErrCount := 1000,
            Metrics := \<lparr> MessagesSent = 0, MessagesReceived = 0, Errors = 999,
                         AudioChunks = 0 \<rparr>\<rparr>)
     \<and> \<not> ShutdownOnce (snd (receiveRoutine ?d [ReadFailed OtherError] ?c))"
    using failed_read_ends_in_panic [OF sound, of OtherError True ?d "[]"]
    by (simp add: isTimeout_def fields)
  from sound t o show ?thesis
    by blast
qed

section \<open>Properties of base64\<close>

text \<open>Decoding what the encoder produced gives the bytes back.\<close>

lemma indexByte_nth:
  "distinct xs \<Longrightarrow> i < length xs \<Longrightarrow> indexByte xs (xs ! i) = Some i"
proof (induction xs arbitrary: i)
  case Nil
  then show ?case by simp
next
  case (Cons x xs)
  then show ?case by (cases i) auto
qed

lemma length_encodeStd: "length encodeStd = 64"
  by (simp add: encodeStd_def)

lemma distinct_encodeStd: "distinct encodeStd"
  by (simp add: encodeStd_def)

lemma decodeMap_enc64: "decodeMap (enc64 i) = Some (i mod 64)"
  by (simp add: decodeMap_def enc64_def indexByte_nth distinct_encodeStd length_encodeStd)

lemma enc64_in: "enc64 i \<in> set encodeStd"
  by (simp add: enc64_def length_encodeStd)

lemma enc64_plain: "enc64 i \<noteq> CHR ''='' \<and> enc64 i \<noteq> CHR 0x0A \<and> enc64 i \<noteq> CHR 0x0D"
proof -
  have "CHR ''='' \<notin> set encodeStd" "CHR 0x0A \<notin> set encodeStd" "CHR 0x0D \<notin> set encodeStd"
    by (simp_all add: encodeStd_def)
  then show ?thesis using enc64_in [of i] by metis
qed

lemma byte_of_nat: "x mod 256 = unat (b :: byte) \<Longrightarrow> of_nat x = b"
  by (simp add: word_unat_eq_iff unat_of_nat)

lemma unat_byte_less: "unat (b :: byte) < 256"
  using unsigned_less [of b] by simp

lemma sextets:
  fixes v :: nat
  assumes "v < 16777216"
  shows "(v div 262144) mod 64 * 262144 + (v div 4096) mod 64 * 4096
          + (v div 64) mod 64 * 64 + v mod 64 = v"
proof -
  have q2: "v div 4096 = (v div 64) div 64"
    by (simp add: div_mult2_eq [symmetric])
  have q3: "v div 262144 = (v div 4096) div 64"
    by (simp add: div_mult2_eq [symmetric])
  have top: "v div 262144 < 64"
    using assms by (simp add: less_mult_imp_div_less)
  have a: "v = (v div 64) * 64 + v mod 64" by simp
  have b: "v div 64 = (v div 4096) * 64 + (v div 64) mod 64" by (simp add: q2)
  have c: "v div 4096 = (v div 262144) * 64 + (v div 4096) mod 64" by (simp add: q3)
  have "v = (((v div 262144) * 64 + (v div 4096) mod 64) * 64 + (v div 64) mod 64) * 64 + v mod 64"
    using a b c by metis
  also have "\<dots> = (v div 262144) * 262144 + (v div 4096) mod 64 * 4096
          + (v div 64) mod 64 * 64 + v mod 64"
    by (simp add: algebra_simps)
  finally show ?thesis using top by simp
qed


lemma low_sextets:
  fixes a b :: nat
  shows "(a * 65536) mod 64 = 0" "(a * 65536 div 64) mod 64 = 0"
    "(a * 65536 + b * 256) mod 64 = 0"
proof -
  have "a * 65536 = (a * 1024) * 64" by simp
  then show "(a * 65536) mod 64 = 0" by (metis mod_mult_self2_is_0)
  have "a * 65536 div 64 = (a * 16) * 64" by simp
  then show "(a * 65536 div 64) mod 64 = 0" by (metis mod_mult_self2_is_0)
  have "a * 65536 + b * 256 = (a * 1024 + b * 4) * 64" by simp
  then show "(a * 65536 + b * 256) mod 64 = 0" by (metis mod_mult_self2_is_0)
qed

lemma bytes_back:
  fixes a b c :: nat
  assumes "a < 256" "b < 256" "c < 256"
  shows "(a * 65536 + b * 256 + c) div 65536 mod 256 = a"
    "(a * 65536 + b * 256 + c) div 256 mod 256 = b"
    "(a * 65536 + b * 256 + c) mod 256 = c"
    "a * 65536 + b * 256 + c < 16777216"
proof -
  have lo: "b * 256 + c < 65536" using assms by simp
  have "(a * 65536 + (b * 256 + c)) div 65536 = a"
    using lo by simp
  then show "(a * 65536 + b * 256 + c) div 65536 mod 256 = a"
    using assms by (simp add: add.assoc)
  have v: "a * 65536 + b * 256 + c = (a * 256 + b) * 256 + c" by simp
  have "((a * 256 + b) * 256 + c) div 256 = a * 256 + b"
    using assms by simp
  then have d: "((a * 256 + b) * 256 + c) div 256 mod 256 = b"
    using assms by simp
  show "(a * 65536 + b * 256 + c) div 256 mod 256 = b"
    unfolding v by (rule d)
  have m: "((a * 256 + b) * 256 + c) mod 256 = c"
    using assms by (simp only: mod_mult_self3 mod_less)
  show "(a * 65536 + b * 256 + c) mod 256 = c"
    unfolding v by (rule m)
  show "a * 65536 + b * 256 + c < 16777216"
    using assms by simp
qed


lemma decodeQuanta_full:
  assumes "decodeMap a = Some x" "decodeMap b = Some y" "decodeMap c = Some z"
    "decodeMap d = Some w" "c \<noteq> CHR ''=''" "d \<noteq> CHR ''=''"
  shows "decodeQuanta (a # b # c # d # rest) =
         map_option
           (\<lambda>r. [of_nat ((x * 262144 + y * 4096 + z * 64 + w) div 65536),
                 of_nat ((x * 262144 + y * 4096 + z * 64 + w) div 256),
                 of_nat (x * 262144 + y * 4096 + z * 64 + w)] @ r)
           (decodeQuanta rest)"
  by (simp only: decodeQuanta.simps assms option.case prod.case if_False)

lemma decodeQuanta_pad1:
  assumes "decodeMap a = Some x" "decodeMap b = Some y" "decodeMap c = Some z"
    "c \<noteq> CHR ''=''"
  shows "decodeQuanta [a, b, c, CHR ''=''] =
         Some [of_nat ((x * 262144 + y * 4096 + z * 64) div 65536),
               of_nat ((x * 262144 + y * 4096 + z * 64) div 256)]"
  by (simp only: decodeQuanta.simps assms option.case prod.case if_False if_True simp_thms)

lemma decodeQuanta_pad2:
  assumes "decodeMap a = Some x" "decodeMap b = Some y"
  shows "decodeQuanta [a, b, CHR ''='', CHR ''=''] =
         Some [of_nat ((x * 262144 + y * 4096) div 65536)]"
  by (simp only: decodeQuanta.simps assms option.case prod.case if_False if_True simp_thms)

lemma decode_group3:
  assumes "v < 16777216"
  shows "decodeQuanta (enc64 (v div 262144) # enc64 (v div 4096) # enc64 (v div 64) # enc64 v # rest)
         = map_option (\<lambda>r. [of_nat (v div 65536), of_nat (v div 256), of_nat v] @ r)
             (decodeQuanta rest)"
proof -
  have "decodeQuanta (enc64 (v div 262144) # enc64 (v div 4096) # enc64 (v div 64) # enc64 v # rest)
      = map_option
           (\<lambda>r. [of_nat ((v div 262144 mod 64 * 262144 + v div 4096 mod 64 * 4096
                           + v div 64 mod 64 * 64 + v mod 64) div 65536),
                 of_nat ((v div 262144 mod 64 * 262144 + v div 4096 mod 64 * 4096
                           + v div 64 mod 64 * 64 + v mod 64) div 256),
                 of_nat (v div 262144 mod 64 * 262144 + v div 4096 mod 64 * 4096
                           + v div 64 mod 64 * 64 + v mod 64)] @ r)
           (decodeQuanta rest)"
    by (rule decodeQuanta_full) (simp_all add: decodeMap_enc64 enc64_plain)
  then show ?thesis
    by (simp only: sextets [OF assms])
qed

lemma decode_group2:
  assumes "v < 16777216" "v mod 64 = 0"
  shows "decodeQuanta [enc64 (v div 262144), enc64 (v div 4096), enc64 (v div 64), CHR ''='']
         = Some [of_nat (v div 65536), of_nat (v div 256)]"
proof -
  have s: "v div 262144 mod 64 * 262144 + v div 4096 mod 64 * 4096 + v div 64 mod 64 * 64 = v"
    using sextets [OF assms(1)] by (simp only: assms(2) add_0_right)
  have "decodeQuanta [enc64 (v div 262144), enc64 (v div 4096), enc64 (v div 64), CHR ''='']
      = Some [of_nat ((v div 262144 mod 64 * 262144 + v div 4096 mod 64 * 4096
                           + v div 64 mod 64 * 64) div 65536),
              of_nat ((v div 262144 mod 64 * 262144 + v div 4096 mod 64 * 4096
                           + v div 64 mod 64 * 64) div 256)]"
    by (rule decodeQuanta_pad1) (simp_all add: decodeMap_enc64 enc64_plain)
  then show ?thesis
    by (simp only: s)
qed

lemma decode_group1:
  assumes "v < 16777216" "v mod 64 = 0" "(v div 64) mod 64 = 0"
  shows "decodeQuanta [enc64 (v div 262144), enc64 (v div 4096), CHR ''='', CHR ''='']
         = Some [of_nat (v div 65536)]"
proof -
  have s: "v div 262144 mod 64 * 262144 + v div 4096 mod 64 * 4096 = v"
    using sextets [OF assms(1)] by (simp only: assms(2,3) add_0_right mult_0)
  have "decodeQuanta [enc64 (v div 262144), enc64 (v div 4096), CHR ''='', CHR ''='']
      = Some [of_nat ((v div 262144 mod 64 * 262144 + v div 4096 mod 64 * 4096) div 65536)]"
    by (rule decodeQuanta_pad2) (simp_all add: decodeMap_enc64)
  then show ?thesis
    by (simp only: s)
qed

lemma decodeQuanta_EncodeToString: "decodeQuanta (EncodeToString bs) = Some bs"
proof (induction bs rule: EncodeToString.induct)
  case 1
  show ?case by simp
next
  case (2 a)
  let ?v = "unat a * 65536"
  have v: "?v < 16777216" using unat_byte_less [of a] by simp
  have enc: "EncodeToString [a] =
      [enc64 (?v div 262144), enc64 (?v div 4096), CHR ''='', CHR ''='']"
    by (simp only: EncodeToString.simps Let_def)
  have "?v div 65536 mod 256 = unat a"
    using unat_byte_less [of a] by simp
  then have byte: "of_nat (?v div 65536) = a"
    by (rule byte_of_nat)
  show ?case
    by (simp only: enc decode_group1 [OF v low_sextets(1,2)] byte)
next
  case (3 a b)
  let ?v = "unat a * 65536 + unat b * 256"
  have v: "?v < 16777216"
    using unat_byte_less [of a] unat_byte_less [of b] by simp
  have enc: "EncodeToString [a, b] =
      [enc64 (?v div 262144), enc64 (?v div 4096), enc64 (?v div 64), CHR ''='']"
    by (simp only: EncodeToString.simps Let_def)
  have "?v div 65536 mod 256 = unat a" "?v div 256 mod 256 = unat b"
    using bytes_back(1,2) [of "unat a" "unat b" 0] unat_byte_less [of a] unat_byte_less [of b]
    by simp_all
  then have byte: "of_nat (?v div 65536) = a" "of_nat (?v div 256) = b"
    by (simp_all only: byte_of_nat)
  show ?case
    by (simp only: enc decode_group2 [OF v low_sextets(3)] byte)
next
  case (4 a b c rest)
  let ?v = "unat a * 65536 + unat b * 256 + unat c"
  have v: "?v < 16777216"
    using bytes_back(4) [of "unat a" "unat b" "unat c"] unat_byte_less by simp
  have enc: "EncodeToString (a # b # c # rest) =
      enc64 (?v div 262144) # enc64 (?v div 4096) # enc64 (?v div 64) # enc64 ?v #
      EncodeToString rest"
    by (simp only: EncodeToString.simps Let_def append_Cons append_Nil)
  have "?v div 65536 mod 256 = unat a" "?v div 256 mod 256 = unat b" "?v mod 256 = unat c"
    using bytes_back(1,2,3) [of "unat a" "unat b" "unat c"]
      unat_byte_less [of a] unat_byte_less [of b] unat_byte_less [of c]
    by simp_all
  then have byte: "of_nat (?v div 65536) = a" "of_nat (?v div 256) = b" "of_nat ?v = c"
    by (simp_all only: byte_of_nat)
  show ?case
    by (simp only: enc decode_group3 [OF v] "4.IH" byte) simp
qed

lemma EncodeToString_plain:
  "c \<in> set (EncodeToString bs) \<Longrightarrow> c \<noteq> CHR 0x0A \<and> c \<noteq> CHR 0x0D"
  by (induction bs rule: EncodeToString.induct) (auto simp: Let_def enc64_plain)

lemma DecodeString_EncodeToString: "DecodeString (EncodeToString bs) = Some bs"
proof -
  have "filter (\<lambda>c. c \<noteq> CHR 0x0A \<and> c \<noteq> CHR 0x0D) (EncodeToString bs) = EncodeToString bs"
    using EncodeToString_plain by (simp add: filter_id_conv)
  then show ?thesis
    by (simp add: DecodeString_def decodeQuanta_EncodeToString)
qed

section \<open>Properties of the outbound framer\<close>

lemma take_min_length: "take (min n (length xs)) xs = take n xs"
  by (simp add: min_def)

lemma drop_min_length: "drop (min n (length xs)) xs = drop n xs"
  by (simp add: min_def)

lemma WriteJSON_ok:
  "net (Writes c) = None \<Longrightarrow>
   WriteJSON net msg c = (None, c\<lparr>Writes := Writes c + 1, Sent := Sent c @ [msg]\<rparr>)"
  by (simp add: WriteJSON_def)

lemma WriteJSON_fail:
  "net (Writes c) = Some e \<Longrightarrow>
   WriteJSON net msg c = (Some e, c\<lparr>Writes := Writes c + 1\<rparr>)"
  by (simp add: WriteJSON_def)

lemma appendEvents_Nil [simp]: "appendEvents C k [] = []"
  by (simp add: appendEvents.simps)

lemma appendEvents_Cons:
  "0 < C \<Longrightarrow> unread \<noteq> [] \<Longrightarrow>
   appendEvents C k unread =
     InputAudioBufferAppend (''evt_audio_'' @ decimal (k + 1)) (EncodeToString (take C unread))
     # appendEvents C (k + 1) (drop C unread)"
  by (subst appendEvents.simps) simp

lemma loopEvents_Nil: "loopEvents C k [] = [InputAudioBufferCommit (''evt_commit_'' @ decimal k)]"
  by (simp add: loopEvents_def)

lemma loopEvents_Cons:
  "0 < C \<Longrightarrow> unread \<noteq> [] \<Longrightarrow>
   loopEvents C k unread =
     InputAudioBufferAppend (''evt_audio_'' @ decimal (k + 1)) (EncodeToString (take C unread))
     # loopEvents C (k + 1) (drop C unread)"
  by (simp add: loopEvents_def appendEvents_Cons)

lemma sendChunks_eof:
  "0 < C \<Longrightarrow>
   sendChunks net C None [] k c =
     (case WriteJSON net (InputAudioBufferCommit (''evt_commit_'' @ decimal k))
             (LoggerLog ''sent'' ''input_audio_buffer.commit'' c) of
        (Some err, c') \<Rightarrow> Some (Some (ErrWriteAudioCommit err), c')
      | (None, c') \<Rightarrow> Some (None, c'))"
  by (subst sendChunks.simps) simp

lemma sendChunks_chunk:
  "0 < C \<Longrightarrow> unread \<noteq> [] \<Longrightarrow>
   sendChunks net C None unread k c =
     (case WriteJSON net
             (InputAudioBufferAppend (''evt_audio_'' @ decimal (k + 1))
                (EncodeToString (take C unread)))
             (LoggerLog ''sent'' ''input_audio_buffer.append'' c) of
        (Some err, c') \<Rightarrow> Some (Some (ErrWriteAudioChunk err), c')
      | (None, c') \<Rightarrow> sendChunks net C None (drop C unread) (k + 1) c')"
  by (subst sendChunks.simps)
     (simp add: take_min_length drop_min_length Let_def split: prod.splits option.splits)

lemma progressed_step:
  "progressed evs l s w (progressed [ev] 1 1 1 c) = progressed (ev # evs) (Suc l) (Suc s) (Suc w) c"
  by (simp add: progressed_def)

lemma sendChunks_all_sent:
  assumes "0 < C"
    and "\<forall>i < length (loopEvents C k unread). net (Writes c + i) = None"
  shows "sendChunks net C None unread k c =
     Some (None, progressed (loopEvents C k unread) (length (loopEvents C k unread))
                   (length (loopEvents C k unread)) (length (loopEvents C k unread)) c)"
  using assms
proof (induction C k unread arbitrary: c rule: appendEvents.induct)
  case (1 C k unread)
  have w: "net (Writes c) = None"
    using "1.prems"(2) [rule_format, of 0] by (simp add: loopEvents_def)
  show ?case
  proof (cases "unread = []")
    case True
    show ?thesis
      using w "1.prems"(1) unfolding True
      by (simp add: sendChunks_eof loopEvents_Nil WriteJSON_ok LoggerLog_def progressed_def
          eventType_def)
  next
    case False
    let ?ev = "InputAudioBufferAppend (''evt_audio_'' @ decimal (k + 1)) (EncodeToString (take C unread))"
    let ?c2 = "progressed [?ev] 1 1 1 c"
    have ev: "loopEvents C k unread = ?ev # loopEvents C (k + 1) (drop C unread)"
      using False "1.prems"(1) by (rule loopEvents_Cons [rotated])
    have rest: "\<forall>i < length (loopEvents C (k + 1) (drop C unread)). net (Writes ?c2 + i) = None"
    proof (intro allI impI)
      fix i assume "i < length (loopEvents C (k + 1) (drop C unread))"
      then have "Suc i < length (loopEvents C k unread)" by (simp add: ev)
      then have "net (Writes c + Suc i) = None" using "1.prems"(2) by blast
      then show "net (Writes ?c2 + i) = None" by (simp add: progressed_def)
    qed
    have step: "sendChunks net C None unread k c = sendChunks net C None (drop C unread) (k + 1) ?c2"
      using False "1.prems"(1) w
      by (simp add: sendChunks_chunk WriteJSON_ok LoggerLog_def progressed_def eventType_def)
    have ih: "sendChunks net C None (drop C unread) (k + 1) ?c2 =
       Some (None, progressed (loopEvents C (k + 1) (drop C unread))
                   (length (loopEvents C (k + 1) (drop C unread)))
                   (length (loopEvents C (k + 1) (drop C unread)))
                   (length (loopEvents C (k + 1) (drop C unread))) ?c2)"
      using "1.IH" [OF _ "1.prems"(1) rest] False "1.prems"(1) by simp
    show ?thesis
      by (simp only: step ih progressed_step) (simp add: ev)
  qed
qed

lemma sendChunks_first_failure:
  assumes "0 < C"
    and "j < length (loopEvents C k unread)"
    and "\<forall>i < j. net (Writes c + i) = None"
    and "net (Writes c + j) = Some e"
  shows "sendChunks net C None unread k c =
     Some (Some (sendError (loopEvents C k unread ! j) e),
           progressed (loopEvents C k unread) (Suc j) j (Suc j) c)"
  using assms
proof (induction C k unread arbitrary: c j rule: appendEvents.induct)
  case (1 C k unread)
  show ?case
  proof (cases "unread = []")
    case True
    have j: "j = 0" using "1.prems"(2) by (simp add: True loopEvents_Nil)
    show ?thesis
      using "1.prems"(4) "1.prems"(1) unfolding True j
      by (simp add: sendChunks_eof loopEvents_Nil WriteJSON_fail LoggerLog_def progressed_def
          eventType_def sendError_def)
  next
    case False
    let ?ev = "InputAudioBufferAppend (''evt_audio_'' @ decimal (k + 1)) (EncodeToString (take C unread))"
    let ?c2 = "progressed [?ev] 1 1 1 c"
    have ev: "loopEvents C k unread = ?ev # loopEvents C (k + 1) (drop C unread)"
      using False "1.prems"(1) by (rule loopEvents_Cons [rotated])
    show ?thesis
    proof (cases j)
      case 0
      show ?thesis
        using "1.prems"(4) False "1.prems"(1) unfolding 0
        by (simp add: sendChunks_chunk ev WriteJSON_fail LoggerLog_def progressed_def
            eventType_def sendError_def)
    next
      case (Suc j')
      have w: "net (Writes c) = None"
        using "1.prems"(3) [rule_format, of 0] Suc by simp
      have step: "sendChunks net C None unread k c = sendChunks net C None (drop C unread) (k + 1) ?c2"
        using False "1.prems"(1) w
        by (simp add: sendChunks_chunk WriteJSON_ok LoggerLog_def progressed_def eventType_def)
      have j': "j' < length (loopEvents C (k + 1) (drop C unread))"
        using "1.prems"(2) by (simp add: ev Suc)
      have before: "\<forall>i < j'. net (Writes ?c2 + i) = None"
      proof (intro allI impI)
        fix i assume "i < j'"
        then have "Suc i < j" by (simp add: Suc)
        then have "net (Writes c + Suc i) = None" using "1.prems"(3) by blast
        then show "net (Writes ?c2 + i) = None" by (simp add: progressed_def)
      qed
      have at: "net (Writes ?c2 + j') = Some e"
        using "1.prems"(4) by (simp add: progressed_def Suc)
      have ih: "sendChunks net C None (drop C unread) (k + 1) ?c2 =
         Some (Some (sendError (loopEvents C (k + 1) (drop C unread) ! j') e),
               progressed (loopEvents C (k + 1) (drop C unread)) (Suc j') j' (Suc j') ?c2)"
        using "1.IH" [OF _ "1.prems"(1) j' before at] False "1.prems"(1) by simp
      show ?thesis
        by (simp only: step ih progressed_step) (simp add: ev Suc)
    qed
  qed
qed

lemma ceil_div_step:
  fixes C L :: nat
  assumes "0 < C" "0 < L"
  shows "(L + C - 1) div C = Suc ((L - C + C - 1) div C)"
proof (cases "C \<le> L")
  case True
  then have a: "L + C - 1 = (L - 1) + C" and b: "L - C + C - 1 = L - 1"
    using assms by simp_all
  have "((L - 1) + C) div C = Suc ((L - 1) div C)"
    using assms(1) div_add_self2 [of C "L - 1"] by simp
  then show ?thesis by (simp only: a b)
next
  case False
  then have lo: "C \<le> L + C - 1" and hi: "L + C - 1 < 2 * C" and z: "L - C + C - 1 < C"
    using assms by simp_all
  have "(L + C - 1) div C = 1"
    using lo hi assms(1)
    by (metis (no_types, opaque_lifting) One_nat_def div_nat_eqI mult.commute mult_2 nat_mult_1_right mult_Suc_right Suc_1)
  then show ?thesis using z by simp
qed

lemma length_appendEvents:
  "0 < C \<Longrightarrow> length (appendEvents C k raw) = (length raw + C - 1) div C"
proof (induction C k raw rule: appendEvents.induct)
  case (1 C k raw)
  show ?case
  proof (cases "raw = []")
    case True
    then show ?thesis using "1.prems" by simp
  next
    case False
    then have "length (appendEvents C k raw) = Suc ((length (drop C raw) + C - 1) div C)"
      using "1.IH" "1.prems" by (simp add: appendEvents_Cons)
    also have "\<dots> = (length raw + C - 1) div C"
      using ceil_div_step [of C "length raw"] False "1.prems" by simp
    finally show ?thesis .
  qed
qed

lemma eventID_appendEvents:
  "0 < C \<Longrightarrow>
   map eventID (appendEvents C k raw) =
     map (\<lambda>i. ''evt_audio_'' @ decimal i) [k + 1 ..< k + 1 + length (appendEvents C k raw)]"
proof (induction C k raw rule: appendEvents.induct)
  case (1 C k raw)
  show ?case
  proof (cases "raw = []")
    case True
    then show ?thesis by simp
  next
    case False
    then show ?thesis
      using "1.IH" "1.prems"
      by (simp add: appendEvents_Cons eventID_def upt_conv_Cons del: upt_Suc)
  qed
qed

lemma decodeAll_appendEvents:
  "0 < C \<Longrightarrow> decodeAll (map audioOf (appendEvents C k raw)) = Some raw"
proof (induction C k raw rule: appendEvents.induct)
  case (1 C k raw)
  show ?case
  proof (cases "raw = []")
    case True
    then show ?thesis by simp
  next
    case False
    then show ?thesis
      using "1.IH" "1.prems"
      by (simp add: appendEvents_Cons audioOf_def DecodeString_EncodeToString)
  qed
qed

lemma isAppend_appendEvents: "e \<in> set (appendEvents C k raw) \<Longrightarrow> isAppend e"
proof (induction C k raw rule: appendEvents.induct)
  case (1 C k raw)
  then show ?case
    by (cases "C = 0 \<or> raw = []") (auto simp: appendEvents.simps [of C k raw] isAppend_def)
qed

lemma filter_isAppend_uploadEvents:
  "filter isAppend (uploadEvents C raw) = appendEvents C 0 raw"
proof -
  have "filter isAppend (appendEvents C 0 raw) = appendEvents C 0 raw"
    using isAppend_appendEvents by (simp add: filter_id_conv)
  then show ?thesis
    by (simp add: uploadEvents_def loopEvents_def isAppend_def)
qed

lemma filter_isCommit_uploadEvents:
  "filter isCommit (uploadEvents C raw) =
     [InputAudioBufferCommit (''evt_commit_'' @ decimal (length (appendEvents C 0 raw)))]"
proof -
  have "\<forall>e \<in> set (appendEvents C 0 raw). \<not> isCommit e"
  proof
    fix e assume "e \<in> set (appendEvents C 0 raw)"
    then have "isAppend e" by (rule isAppend_appendEvents)
    then show "\<not> isCommit e"
      by (cases e) (simp_all add: isAppend_def isCommit_def)
  qed
  then have "filter isCommit (appendEvents C 0 raw) = []"
    by (simp add: filter_empty_conv)
  then show ?thesis
    by (simp add: uploadEvents_def loopEvents_def isCommit_def)
qed

lemma progressed_append:
  "l \<le> length ys \<Longrightarrow> s \<le> length ys \<Longrightarrow>
   progressed ys l s w (progressed xs (length xs) (length xs) v c) =
   progressed (xs @ ys) (length xs + l) (length xs + s) (v + w) c"
  by (simp add: progressed_def)

lemma progressed_one:
  "c\<lparr>Logged := Logged c @ [(''sent'', eventType ev)], Writes := Suc (Writes c),
     Sent := Sent c @ [ev]\<rparr> = progressed [ev] (length [ev]) (length [ev]) 1 c"
  by (simp add: progressed_def)

lemma progressed_failed_first:
  "c\<lparr>Logged := Logged c @ [(''sent'', eventType ev)], Writes := Suc (Writes c)\<rparr>
     = progressed (ev # evs) 1 0 1 c"
  by (simp add: progressed_def)

lemma uploadEvents_length: "length (uploadEvents C raw) = length (loopEvents C 0 raw) + 2"
  by (simp add: uploadEvents_def)

lemma sendAudioMessageWith_all_sent:
  assumes present: "Files c path = Some file"
    and valid: "validateWAVFormat False file = None"
    and size: "0 < ChunkSize cfg"
    and net: "\<forall>i < length (uploadEvents (ChunkSize cfg) (drop 44 file)). net (Writes c + i) = None"
  shows "sendAudioMessageWith cfg net noFaults path c =
     Some (None,
       progressed (uploadEvents (ChunkSize cfg) (drop 44 file))
         (length (uploadEvents (ChunkSize cfg) (drop 44 file)))
         (length (uploadEvents (ChunkSize cfg) (drop 44 file)))
         (length (uploadEvents (ChunkSize cfg) (drop 44 file))) c)"
proof -
  let ?create = "ConversationItemCreate ''input_audio'' ''audio_0''"
  let ?L = "loopEvents (ChunkSize cfg) 0 (drop 44 file)"
  let ?c1 = "progressed [?create] (length [?create]) (length [?create]) 1 c"
  let ?c2 = "progressed ?L (length ?L) (length ?L) (length ?L) ?c1"
  have w0: "net (Writes c) = None"
    using net [rule_format, of 0] by (simp add: uploadEvents_length)
  have first: "WriteJSON net ?create (LoggerLog ''sent'' ''conversation.item.create'' c) = (None, ?c1)"
    using w0 by (simp add: WriteJSON_ok LoggerLog_def progressed_def eventType_def)
  have "\<forall>i < length ?L. net (Writes ?c1 + i) = None"
  proof (intro allI impI)
    fix i assume "i < length ?L"
    then have "Suc i < length (uploadEvents (ChunkSize cfg) (drop 44 file))"
      by (simp add: uploadEvents_length)
    then have "net (Writes c + Suc i) = None" using net by blast
    then show "net (Writes ?c1 + i) = None" by (simp add: progressed_def)
  qed
  then have loop: "sendChunks net (ChunkSize cfg) None (drop 44 file) 0 ?c1 = Some (None, ?c2)"
    by (rule sendChunks_all_sent [OF size])
  have "net (Writes c + Suc (length ?L)) = None"
    using net [rule_format, of "Suc (length ?L)"] by (simp add: uploadEvents_length)
  then have w2: "net (Writes ?c2) = None"
    by (simp add: progressed_def)
  have last: "WriteJSON net ResponseCreate (LoggerLog ''sent'' ''response.create'' ?c2) =
       (None, progressed [ResponseCreate] (length [ResponseCreate]) (length [ResponseCreate]) 1 ?c2)"
    using w2 by (simp add: WriteJSON_ok LoggerLog_def progressed_def eventType_def)
  have final: "progressed [ResponseCreate] (length [ResponseCreate]) (length [ResponseCreate]) 1 ?c2 =
      progressed (uploadEvents (ChunkSize cfg) (drop 44 file))
         (length (uploadEvents (ChunkSize cfg) (drop 44 file)))
         (length (uploadEvents (ChunkSize cfg) (drop 44 file)))
         (length (uploadEvents (ChunkSize cfg) (drop 44 file))) c"
    by (simp add: progressed_def uploadEvents_def)
  show ?thesis
    unfolding sendAudioMessageWith_def
    by (simp only: present valid noFaults_def readFaults.simps option.case if_False first loop last
        prod.case final)
qed

lemma sendAudioMessageWith_first_failure:
  assumes present: "Files c path = Some file"
    and valid: "validateWAVFormat False file = None"
    and size: "0 < ChunkSize cfg"
    and j: "j < length (uploadEvents (ChunkSize cfg) (drop 44 file))"
    and before: "\<forall>i < j. net (Writes c + i) = None"
    and at: "net (Writes c + j) = Some e"
  shows "sendAudioMessageWith cfg net noFaults path c =
     Some (Some (sendError (uploadEvents (ChunkSize cfg) (drop 44 file) ! j) e),
       progressed (uploadEvents (ChunkSize cfg) (drop 44 file)) (Suc j) j (Suc j) c)"
proof -
  let ?create = "ConversationItemCreate ''input_audio'' ''audio_0''"
  let ?L = "loopEvents (ChunkSize cfg) 0 (drop 44 file)"
  let ?U = "uploadEvents (ChunkSize cfg) (drop 44 file)"
  let ?c1 = "progressed [?create] (length [?create]) (length [?create]) 1 c"
  have U: "?U = ?create # ?L @ [ResponseCreate]"
    by (simp add: uploadEvents_def)
  show ?thesis
  proof (cases j)
    case 0
    have "WriteJSON net ?create (LoggerLog ''sent'' ''conversation.item.create'' c) =
        (Some e, progressed ?U (Suc 0) 0 (Suc 0) c)"
      using at unfolding 0
      by (simp add: WriteJSON_fail LoggerLog_def progressed_def eventType_def U)
    then show ?thesis
      unfolding sendAudioMessageWith_def 0
      by (simp only: present valid noFaults_def readFaults.simps option.case if_False prod.case)
         (simp add: U sendError_def)
  next
    case (Suc j')
    have w0: "net (Writes c) = None"
      using before [rule_format, of 0] Suc by simp
    have first: "WriteJSON net ?create (LoggerLog ''sent'' ''conversation.item.create'' c) = (None, ?c1)"
      using w0 by (simp add: WriteJSON_ok LoggerLog_def progressed_def eventType_def)
    show ?thesis
    proof (cases "j' < length ?L")
      case True
      have b: "\<forall>i < j'. net (Writes ?c1 + i) = None"
      proof (intro allI impI)
        fix i assume "i < j'"
        then have "Suc i < j" by (simp add: Suc)
        then have "net (Writes c + Suc i) = None" using before by blast
        then show "net (Writes ?c1 + i) = None" by (simp add: progressed_def)
      qed
      have a: "net (Writes ?c1 + j') = Some e"
        using at by (simp add: progressed_def Suc)
      have loop: "sendChunks net (ChunkSize cfg) None (drop 44 file) 0 ?c1 =
          Some (Some (sendError (?L ! j') e), progressed ?L (Suc j') j' (Suc j') ?c1)"
        by (rule sendChunks_first_failure [OF size True b a])
      have nth: "?U ! j = ?L ! j'"
        using True by (simp add: U Suc nth_append)
      have final: "progressed ?L (Suc j') j' (Suc j') ?c1 = progressed ?U (Suc j) j (Suc j) c"
        using True by (simp add: progressed_def U Suc)
      show ?thesis
        unfolding sendAudioMessageWith_def
        by (simp only: present valid noFaults_def readFaults.simps option.case if_False first loop
            prod.case nth final)
    next
      case False
      then have j': "j' = length ?L"
        using j by (simp add: uploadEvents_length Suc)
      let ?c2 = "progressed ?L (length ?L) (length ?L) (length ?L) ?c1"
      have "\<forall>i < length ?L. net (Writes ?c1 + i) = None"
      proof (intro allI impI)
        fix i assume "i < length ?L"
        then have "Suc i < j" by (simp add: Suc j')
        then have "net (Writes c + Suc i) = None" using before by blast
        then show "net (Writes ?c1 + i) = None" by (simp add: progressed_def)
      qed
      then have loop: "sendChunks net (ChunkSize cfg) None (drop 44 file) 0 ?c1 = Some (None, ?c2)"
        by (rule sendChunks_all_sent [OF size])
      have w2: "net (Writes ?c2) = Some e"
        using at by (simp add: progressed_def Suc j')
      have last: "WriteJSON net ResponseCreate (LoggerLog ''sent'' ''response.create'' ?c2) =
         (Some e, progressed ?U (Suc j) j (Suc j) c)"
        using w2 by (simp add: WriteJSON_fail LoggerLog_def progressed_def eventType_def U Suc j')
      have nth: "?U ! j = ResponseCreate"
        by (simp add: U Suc j' nth_append)
      show ?thesis
        unfolding sendAudioMessageWith_def
        by (simp only: present valid noFaults_def readFaults.simps option.case if_False first loop
            last prod.case nth)
           (simp add: sendError_def)
    qed
  qed
qed

lemma ChunkSize_default: "ChunkSize DefaultAudioChunkConfig = 16384"
  by (simp add: DefaultAudioChunkConfig_def Let_def)

lemma drop_written_header:
  "drop 44 (concat (map encodeLE (wavHeaderFields n)) @ pcm) = pcm"
  using length_wavHeader [of n] by (simp del: map_append concat_append)

lemma uploadEvents_example:
  "uploadEvents 16384 [1, 2, 3, 4, 5] =
     [ConversationItemCreate ''input_audio'' ''audio_0'',
      InputAudioBufferAppend ''evt_audio_1'' ''AQIDBAU='',
      InputAudioBufferCommit ''evt_commit_1'',
      ResponseCreate]"
  by (simp add: uploadEvents_def loopEvents_def appendEvents.simps decimal.simps digitChar_def
      enc64_def encodeStd_def)

text \<open>
  \<^bold>\<open>C5.\<close> The file at the path passes \<^verbatim>\<open>validateWAVFormat\<close>, nothing fails on the
  reading side and every write on the connection succeeds. Then \<^verbatim>\<open>sendAudioMessage\<close>
  returns without error, and what it has written on the connection is: the create
  event; then the append events, \<open>ceil(S / 16384)\<close> of them for a payload of \<open>S\<close> bytes
  (the file without its first 44 bytes), with the identifiers \<open>evt_audio_1\<close>,
  \<open>evt_audio_2\<close>, ... in this order, whose base64 payloads decode and join to the raw
  bytes of the file; then exactly one commit event; then the response request.
\<close>

theorem upload_events:
  assumes present: "Files c path = Some file"
    and valid: "validateWAVFormat False file = None"
    and net: "\<forall>i. net (Writes c + i) = None"
  shows "case sendAudioMessage net noFaults path c of
           None \<Rightarrow> False
         | Some (err, c') \<Rightarrow>
             err = None
             \<and> (let new = drop (length (Sent c)) (Sent c');
                     appends = filter isAppend new
                 in Sent c' = Sent c @ new
                  \<and> new = ConversationItemCreate ''input_audio'' ''audio_0'' # appends @
                            [InputAudioBufferCommit (''evt_commit_'' @ decimal (length appends)),
                             ResponseCreate]
                  \<and> length appends = (length file - 44 + 16384 - 1) div 16384
                  \<and> map eventID appends =
                      map (\<lambda>i. ''evt_audio_'' @ decimal i) [1 ..< length appends + 1]
                  \<and> decodeAll (map audioOf appends) = Some (drop 44 file)
                  \<and> length (filter isCommit new) = 1)"
proof -
  let ?U = "uploadEvents 16384 (drop 44 file)"
  let ?A = "appendEvents 16384 0 (drop 44 file)"
  have size: "0 < ChunkSize DefaultAudioChunkConfig"
    by (simp add: ChunkSize_default)
  have run: "sendAudioMessage net noFaults path c =
      Some (None, progressed ?U (length ?U) (length ?U) (length ?U) c)"
    unfolding sendAudioMessage_def
    using sendAudioMessageWith_all_sent [OF present valid size] net
    by (simp add: ChunkSize_default)
  have sent: "Sent (progressed ?U (length ?U) (length ?U) (length ?U) c) = Sent c @ ?U"
    by (simp add: progressed_def)
  have U: "?U = ConversationItemCreate ''input_audio'' ''audio_0'' # ?A @
              [InputAudioBufferCommit (''evt_commit_'' @ decimal (length ?A)), ResponseCreate]"
    by (simp add: uploadEvents_def loopEvents_def)
  have n: "length ?A = (length file - 44 + 16384 - 1) div 16384"
    by (simp add: length_appendEvents)
  have ids: "map eventID ?A = map (\<lambda>i. ''evt_audio_'' @ decimal i) [1 ..< length ?A + 1]"
    using eventID_appendEvents [of 16384 0 "drop 44 file"] by simp
  have dec: "decodeAll (map audioOf ?A) = Some (drop 44 file)"
    by (simp add: decodeAll_appendEvents)
  have app: "filter isAppend ?U = ?A"
    by (rule filter_isAppend_uploadEvents)
  have com: "length (filter isCommit ?U) = 1"
    by (simp add: filter_isCommit_uploadEvents)
  have new: "drop (length (Sent c)) (Sent (progressed ?U (length ?U) (length ?U) (length ?U) c)) = ?U"
    by (simp add: sent)
  show ?thesis
    unfolding run
    apply (simp only: option.case prod.case Let_def new app)
    apply (intro conjI)
          apply (rule refl)
         apply (rule sent)
        apply (rule U)
       apply (rule n)
      apply (rule ids)
     apply (rule dec)
    apply (rule com)
    done
qed


theorem upload_events_witness:
  "(let file = Content (snd (encodeWAV [1, 2, 3, 4, 5]));
        c = (NewChatClient DefaultConfig)\<lparr>Files := [''in.wav'' \<mapsto> file]\<rparr>;
        r = sendAudioMessage (\<lambda>i. None) noFaults ''in.wav'' c
    in Files c ''in.wav'' = Some file
       \<and> validateWAVFormat False file = None
       \<and> map_option fst r = Some None
       \<and> map_option (Sent \<circ> snd) r =
           Some [ConversationItemCreate ''input_audio'' ''audio_0'',
                 InputAudioBufferAppend ''evt_audio_1'' ''AQIDBAU='',
                 InputAudioBufferCommit ''evt_commit_1'',
                 ResponseCreate]
       \<and> decodeAll [''AQIDBAU=''] = Some [1, 2, 3, 4, 5])"
proof -
  let ?file = "Content (snd (encodeWAV [1, 2, 3, 4, 5]))"
  let ?c = "(NewChatClient DefaultConfig)\<lparr>Files := [''in.wav'' \<mapsto> ?file]\<rparr>"
  let ?net = "\<lambda>i :: nat. None :: oserror option"
  have present: "Files ?c ''in.wav'' = Some ?file"
    by simp
  have valid: "validateWAVFormat False ?file = None"
    by (simp add: encodeWAV_eq validate_written_header del: map_append concat_append)
  have net: "\<forall>i. ?net (Writes ?c + i) = None"
    by simp
  have raw: "drop 44 ?file = [1, 2, 3, 4, 5]"
    by (simp only: encodeWAV_eq snd_conv wfile.select_convs drop_written_header)
  have sent0: "Sent ?c = []"
    by (simp add: NewChatClient_def)
  have size: "0 < ChunkSize DefaultAudioChunkConfig"
    by (simp add: ChunkSize_default)
  let ?U = "uploadEvents 16384 [1, 2, 3, 4, 5]"
  let ?done = "progressed ?U (length ?U) (length ?U) (length ?U) ?c"
  have all: "\<forall>i < length (uploadEvents (ChunkSize DefaultAudioChunkConfig) (drop 44 ?file)).
               ?net (Writes ?c + i) = None"
    by simp
  have run: "sendAudioMessage ?net noFaults ''in.wav'' ?c = Some (None, ?done)"
    using sendAudioMessageWith_all_sent [OF present valid size all]
    by (simp only: sendAudioMessage_def ChunkSize_default raw)
  have sent: "Sent ?done =
           [ConversationItemCreate ''input_audio'' ''audio_0'',
            InputAudioBufferAppend ''evt_audio_1'' ''AQIDBAU='',
            InputAudioBufferCommit ''evt_commit_1'',
            ResponseCreate]"
    by (simp add: progressed_def uploadEvents_example sent0)
  have "decodeAll (map audioOf (filter isAppend (drop (length (Sent ?c)) (Sent ?done)))) =
          Some (drop 44 ?file)"
    using upload_events [OF present valid net] unfolding run
    by (simp only: option.case prod.case Let_def)
  then have dec: "decodeAll [''AQIDBAU=''] = Some [1, 2, 3, 4, 5]"
    by (simp only: sent sent0 raw) (simp add: isAppend_def audioOf_def)
  show ?thesis
    using present valid dec by (simp add: Let_def run sent)
qed


section \<open>Properties of the retry policy and of the upload under write failures\<close>

text \<open>
  \<^verbatim>\<open>sendWithRetry\<close> of \<^verbatim>\<open>src/maingo.go\<close>: when the first \<open>k\<close> attempts fail and the next
  one succeeds within the bound, the message is delivered after \<open>k + 1\<close> writes, each
  with its deadline, and the sleeps grow by one second; when every attempt fails, the
  loop makes exactly the remaining number of attempts and returns the retry error.
\<close>

lemma RecordError_fields [simp]:
  "Writes (RecordError c) = Writes c" "Sent (RecordError c) = Sent c"
  "Deadlines (RecordError c) = Deadlines c" "Slept (RecordError c) = Slept c"
  by (simp_all add: RecordError_def)

lemma sendWithRetryLoop_delivers:
  assumes "i + int k < m"
    and "\<forall>t < k. net (Writes c + t) \<noteq> None"
    and "net (Writes c + k) = None"
  shows "fst (sendWithRetryLoop net msg m i lastErr c) = None
       \<and> Writes (snd (sendWithRetryLoop net msg m i lastErr c)) = Writes c + k + 1
       \<and> Deadlines (snd (sendWithRetryLoop net msg m i lastErr c)) = Deadlines c + k + 1
       \<and> Slept (snd (sendWithRetryLoop net msg m i lastErr c)) =
           Slept c @ map (\<lambda>t. i + int t + 1) [0 ..< k]
       \<and> Sent (snd (sendWithRetryLoop net msg m i lastErr c)) = Sent c @ [msg]"
  using assms
proof (induction k arbitrary: i lastErr c)
  case 0
  then have "sendWithRetryLoop net msg m i lastErr c =
      (None, c\<lparr>Deadlines := Deadlines c + 1, Writes := Writes c + 1, Sent := Sent c @ [msg],
               Metrics := (Metrics c)\<lparr>MessagesSent := MessagesSent (Metrics c) + 1\<rparr>\<rparr>)"
    by (subst sendWithRetryLoop.simps) (simp add: WriteJSON_def)
  then show ?case
    by simp
next
  case (Suc k)
  from Suc.prems(2) obtain e where e: "net (Writes c) = Some e"
    by (metis add.right_neutral not_None_eq zero_less_Suc)
  let ?c' = "(RecordError (c\<lparr>Deadlines := Deadlines c + 1, Writes := Writes c + 1\<rparr>))
               \<lparr>Slept := Slept c @ [i + 1]\<rparr>"
  have step: "sendWithRetryLoop net msg m i lastErr c =
              sendWithRetryLoop net msg m (i + 1) (Some e) ?c'"
    using Suc.prems(1) e
    by (subst sendWithRetryLoop.simps) (simp add: WriteJSON_def)
  have a: "(i + 1) + int k < m" using Suc.prems(1) by simp
  have b: "\<forall>t < k. net (Writes ?c' + t) \<noteq> None"
  proof (intro allI impI)
    fix t assume "t < k"
    then have "net (Writes c + Suc t) \<noteq> None"
      using Suc.prems(2) [rule_format, of "Suc t"] by simp
    then show "net (Writes ?c' + t) \<noteq> None" by simp
  qed
  have c: "net (Writes ?c' + k) = None"
    using Suc.prems(3) by simp
  have m: "map (\<lambda>t. i + int t + 1) [0 ..< Suc k] =
           (i + 1) # map (\<lambda>t. i + 1 + int t + 1) [0 ..< k]"
    by (simp add: upt_conv_Cons map_Suc_upt [symmetric] del: upt_Suc)
  show ?case
    unfolding step using Suc.IH [OF a b c, of "Some e"]
    by (simp only: m) simp
qed

lemma sendWithRetryLoop_exhausted:
  assumes "\<forall>t < nat (m - i). net (Writes c + t) \<noteq> None"
  shows "(\<exists>lastErr'. fst (sendWithRetryLoop net msg m i lastErr c) =
              Some (ErrFailedAfterRetries m lastErr'))
       \<and> Writes (snd (sendWithRetryLoop net msg m i lastErr c)) = Writes c + nat (m - i)
       \<and> Deadlines (snd (sendWithRetryLoop net msg m i lastErr c)) = Deadlines c + nat (m - i)
       \<and> Sent (snd (sendWithRetryLoop net msg m i lastErr c)) = Sent c"
  using assms
proof (induction net msg m i lastErr c rule: sendWithRetryLoop.induct)
  case (1 net msg m i lastErr c)
  show ?case
  proof (cases "i < m")
    case False
    then have "sendWithRetryLoop net msg m i lastErr c =
        (Some (ErrFailedAfterRetries m lastErr), c)"
      by (subst sendWithRetryLoop.simps) simp
    then show ?thesis
      using False by simp
  next
    case True
    then have "0 < nat (m - i)" by simp
    then obtain e where e: "net (Writes c) = Some e"
      using "1.prems" by (metis add.right_neutral not_None_eq)
    let ?c0 = "c\<lparr>Deadlines := Deadlines c + 1, Writes := Writes c + 1\<rparr>"
    let ?c' = "(RecordError ?c0)\<lparr>Slept := Slept ?c0 @ [i + 1]\<rparr>"
    have w: "WriteJSON net msg (c\<lparr>Deadlines := Deadlines c + 1\<rparr>) = (Some e, ?c0)"
      using e by (simp add: WriteJSON_def)
    have step: "sendWithRetryLoop net msg m i lastErr c =
                sendWithRetryLoop net msg m (i + 1) (Some e) ?c'"
      using True w by (subst sendWithRetryLoop.simps) simp
    have n: "nat (m - i) = Suc (nat (m - (i + 1)))"
      using True by simp
    have rest: "\<forall>t < nat (m - (i + 1)). net (Writes ?c' + t) \<noteq> None"
    proof (intro allI impI)
      fix t assume "t < nat (m - (i + 1))"
      then have "Suc t < nat (m - i)" using n by simp
      then have "net (Writes c + Suc t) \<noteq> None" using "1.prems" by blast
      then show "net (Writes ?c' + t) \<noteq> None" by simp
    qed
    show ?thesis
      unfolding step
      using "1.IH" [OF True w [symmetric] refl rest] n
      by simp
  qed
qed

text \<open>
  \<^bold>\<open>C8\<close>, as stated, fails: \<^verbatim>\<open>sendAudioMessage\<close> writes each event with one
  \<^verbatim>\<open>c.Conn.WriteJSON\<close> and never calls \<^verbatim>\<open>sendWithRetry\<close>. On a network that fails the
  second write only, the upload of a five-byte payload stops with the chunk error
  after two writes, with no deadline set and no sleep, while \<^verbatim>\<open>sendWithRetry\<close> with
  \<open>MaxRetries = 3\<close> on the same network from the same write on delivers the chunk at
  its second attempt.
\<close>

theorem chunk_send_not_retried:
  "(let file = Content (snd (encodeWAV [1, 2, 3, 4, 5]));
        c = (NewChatClient DefaultConfig)\<lparr>Files := [''in.wav'' \<mapsto> file]\<rparr>;
        net = (\<lambda>i. if i = 1 then Some ''broken pipe'' else None);
        chunk = InputAudioBufferAppend ''evt_audio_1'' ''AQIDBAU='';
        r = sendAudioMessage net noFaults ''in.wav'' c;
        p = sendWithRetry net chunk (c\<lparr>Writes := 1\<rparr>)
    in map_option fst r = Some (Some (ErrWriteAudioChunk ''broken pipe''))
       \<and> map_option (Writes \<circ> snd) r = Some 2
       \<and> map_option (Deadlines \<circ> snd) r = Some 0
       \<and> map_option (Slept \<circ> snd) r = Some []
       \<and> map_option (Sent \<circ> snd) r = Some [ConversationItemCreate ''input_audio'' ''audio_0'']
       \<and> fst p = None
       \<and> Writes (snd p) = 3 \<and> Deadlines (snd p) = 2 \<and> Slept (snd p) = [1]
       \<and> Sent (snd p) = [chunk])"
proof -
  let ?file = "Content (snd (encodeWAV [1, 2, 3, 4, 5]))"
  let ?c = "(NewChatClient DefaultConfig)\<lparr>Files := [''in.wav'' \<mapsto> ?file]\<rparr>"
  let ?net = "\<lambda>i :: nat. if i = 1 then Some ''broken pipe'' else None"
  let ?U = "uploadEvents 16384 [1, 2, 3, 4, 5]"
  have present: "Files ?c ''in.wav'' = Some ?file"
    by simp
  have valid: "validateWAVFormat False ?file = None"
    by (simp add: encodeWAV_eq validate_written_header del: map_append concat_append)
  have raw: "drop 44 ?file = [1, 2, 3, 4, 5]"
    by (simp only: encodeWAV_eq snd_conv wfile.select_convs drop_written_header)
  have w0: "Writes ?c = 0" "Sent ?c = []" "Deadlines ?c = 0" "Slept ?c = []"
    by (simp_all add: NewChatClient_def)
  have size: "0 < ChunkSize DefaultAudioChunkConfig"
    by (simp add: ChunkSize_default)
  have j: "1 < length (uploadEvents (ChunkSize DefaultAudioChunkConfig) (drop 44 ?file))"
    by (simp add: ChunkSize_default raw uploadEvents_example)
  have before: "\<forall>i < 1. ?net (Writes ?c + i) = None"
    by (simp add: w0)
  have at: "?net (Writes ?c + 1) = Some ''broken pipe''"
    by (simp add: w0)
  have run: "sendAudioMessage ?net noFaults ''in.wav'' ?c =
      Some (Some (sendError (?U ! 1) ''broken pipe''), progressed ?U (Suc 1) 1 (Suc 1) ?c)"
    using sendAudioMessageWith_first_failure [OF present valid size j before at]
    by (simp only: sendAudioMessage_def ChunkSize_default raw)
  have retry: "sendWithRetry ?net (InputAudioBufferAppend ''evt_audio_1'' ''AQIDBAU='')
                 (?c\<lparr>Writes := 1\<rparr>) =
       sendWithRetryLoop ?net (InputAudioBufferAppend ''evt_audio_1'' ''AQIDBAU='') 3 0 None
         (?c\<lparr>Writes := 1\<rparr>)"
    by (simp add: sendWithRetry_def NewChatClient_def DefaultConfig_def)
  have p: "(0 :: int) + int 1 < 3" "\<forall>t < 1. ?net (Writes (?c\<lparr>Writes := 1\<rparr>) + t) \<noteq> None"
      "?net (Writes (?c\<lparr>Writes := 1\<rparr>) + 1) = None"
    by simp_all
  let ?P = "sendWithRetryLoop ?net (InputAudioBufferAppend ''evt_audio_1'' ''AQIDBAU='') 3 0 None
         (?c\<lparr>Writes := 1\<rparr>)"
  have d: "fst ?P = None" "Writes (snd ?P) = 3" "Deadlines (snd ?P) = 2" "Slept (snd ?P) = [1]"
      "Sent (snd ?P) = [InputAudioBufferAppend ''evt_audio_1'' ''AQIDBAU='']"
    using sendWithRetryLoop_delivers
      [OF p, of "InputAudioBufferAppend ''evt_audio_1'' ''AQIDBAU=''" None]
    by (simp_all add: NewChatClient_def)
  have r: "map_option fst (Some (Some (sendError (?U ! 1) ''broken pipe''),
                 progressed ?U (Suc 1) 1 (Suc 1) ?c)) =
             Some (Some (ErrWriteAudioChunk ''broken pipe''))"
      "map_option (Writes \<circ> snd) (Some (Some (sendError (?U ! 1) ''broken pipe''),
                 progressed ?U (Suc 1) 1 (Suc 1) ?c)) = Some 2"
      "map_option (Deadlines \<circ> snd) (Some (Some (sendError (?U ! 1) ''broken pipe''),
                 progressed ?U (Suc 1) 1 (Suc 1) ?c)) = Some 0"
      "map_option (Slept \<circ> snd) (Some (Some (sendError (?U ! 1) ''broken pipe''),
                 progressed ?U (Suc 1) 1 (Suc 1) ?c)) = Some []"
      "map_option (Sent \<circ> snd) (Some (Some (sendError (?U ! 1) ''broken pipe''),
                 progressed ?U (Suc 1) 1 (Suc 1) ?c)) =
         Some [ConversationItemCreate ''input_audio'' ''audio_0'']"
    by (simp_all add: uploadEvents_example sendError_def progressed_def NewChatClient_def)
  show ?thesis
    unfolding Let_def run retry
    by (simp only: d r simp_thms)
qed

text \<open>
  \<^bold>\<open>C8\<close>, amended. The file passes the validator and nothing fails on the reading
  side. If the write of event number \<open>j\<close> of the upload, counted from 0, is the first
  that fails, then
  \<^verbatim>\<open>sendAudioMessage\<close> returns the error of that write, wrapped according to the step
  (conversation item, audio chunk, commit or response request); exactly the \<open>j\<close>
  events before it are on the connection; \<open>j + 1\<close> writes were made, one for each
  event tried; no write deadline was set, no sleep was made and no counter changed.
\<close>

theorem upload_aborts_at_first_failure:
  assumes present: "Files c path = Some file"
    and valid: "validateWAVFormat False file = None"
    and j: "j < length (uploadEvents 16384 (drop 44 file))"
    and before: "\<forall>i < j. net (Writes c + i) = None"
    and at: "net (Writes c + j) = Some e"
  shows "case sendAudioMessage net noFaults path c of
           None \<Rightarrow> False
         | Some (err, c') \<Rightarrow>
             err = Some (sendError (uploadEvents 16384 (drop 44 file) ! j) e)
             \<and> Sent c' = Sent c @ take j (uploadEvents 16384 (drop 44 file))
             \<and> Writes c' = Writes c + j + 1
             \<and> Deadlines c' = Deadlines c
             \<and> Slept c' = Slept c
             \<and> Metrics c' = Metrics c"
proof -
  have size: "0 < ChunkSize DefaultAudioChunkConfig"
    by (simp add: ChunkSize_default)
  have "sendAudioMessage net noFaults path c =
      Some (Some (sendError (uploadEvents 16384 (drop 44 file) ! j) e),
            progressed (uploadEvents 16384 (drop 44 file)) (Suc j) j (Suc j) c)"
    unfolding sendAudioMessage_def
    using sendAudioMessageWith_first_failure [OF present valid size, of j net e] j before at
    by (simp add: ChunkSize_default)
  then show ?thesis
    by (simp add: progressed_def)
qed

theorem upload_aborts_at_first_failure_witness:
  "(let file = Content (snd (encodeWAV [1, 2, 3, 4, 5]));
        c = (NewChatClient DefaultConfig)\<lparr>Files := [''in.wav'' \<mapsto> file]\<rparr>;
        net = (\<lambda>i. if i = 2 then Some ''broken pipe'' else None);
        r = sendAudioMessage net noFaults ''in.wav'' c
    in Files c ''in.wav'' = Some file
       \<and> validateWAVFormat False file = None
       \<and> 2 < length (uploadEvents 16384 (drop 44 file))
       \<and> net (Writes c + 0) = None \<and> net (Writes c + 1) = None
       \<and> net (Writes c + 2) = Some ''broken pipe''
       \<and> map_option fst r = Some (Some (ErrWriteAudioCommit ''broken pipe''))
       \<and> map_option (Sent \<circ> snd) r =
            Some [ConversationItemCreate ''input_audio'' ''audio_0'',
                  InputAudioBufferAppend ''evt_audio_1'' ''AQIDBAU='']
       \<and> map_option (Writes \<circ> snd) r = Some 3
       \<and> map_option (Deadlines \<circ> snd) r = Some 0
       \<and> map_option (Slept \<circ> snd) r = Some [])"
proof -
  let ?file = "Content (snd (encodeWAV [1, 2, 3, 4, 5]))"
  let ?c = "(NewChatClient DefaultConfig)\<lparr>Files := [''in.wav'' \<mapsto> ?file]\<rparr>"
  let ?net = "\<lambda>i :: nat. if i = 2 then Some ''broken pipe'' else None"
  have present: "Files ?c ''in.wav'' = Some ?file"
    by simp
  have valid: "validateWAVFormat False ?file = None"
    by (simp add: encodeWAV_eq validate_written_header del: map_append concat_append)
  have raw: "drop 44 ?file = [1, 2, 3, 4, 5]"
    by (simp only: encodeWAV_eq snd_conv wfile.select_convs drop_written_header)
  have w0: "Writes ?c = 0" "Sent ?c = []" "Deadlines ?c = 0" "Slept ?c = []"
    by (simp_all add: NewChatClient_def)
  have j: "2 < length (uploadEvents 16384 (drop 44 ?file))"
    by (simp add: raw uploadEvents_example)
  have before: "\<forall>i < 2. ?net (Writes ?c + i) = None"
    by (simp add: w0)
  have at: "?net (Writes ?c + 2) = Some ''broken pipe''"
    by (simp add: w0)
  note t = upload_aborts_at_first_failure [OF present valid j before at]
  obtain err c' where r: "sendAudioMessage ?net noFaults ''in.wav'' ?c = Some (err, c')"
    using t by (cases "sendAudioMessage ?net noFaults ''in.wav'' ?c") auto
  from t have "err = Some (ErrWriteAudioCommit ''broken pipe'')"
      "Sent c' = [ConversationItemCreate ''input_audio'' ''audio_0'',
                  InputAudioBufferAppend ''evt_audio_1'' ''AQIDBAU='']"
      "Writes c' = 3" "Deadlines c' = 0" "Slept c' = []"
    unfolding r by (simp_all add: raw uploadEvents_example sendError_def w0)
  then show ?thesis
    using present valid j at before unfolding Let_def r
    by (simp add: w0)
qed

section \<open>A three-chunk upload\<close>

text \<open>
  With a buffer of two bytes the five-byte payload goes out in three append events,
  computed here from the definitions alone.
\<close>

lemma upload_small_buffer_example:
  "(let file = Content (snd (encodeWAV [1, 2, 3, 4, 5]));
        c = (NewChatClient DefaultConfig)\<lparr>Files := [''in.wav'' \<mapsto> file]\<rparr>;
        r = sendAudioMessageWith \<lparr>ChunkSize = 2, ChunkDurationMs = 0\<rparr> (\<lambda>i. None) noFaults
              ''in.wav'' c
    in map_option fst r = Some None
       \<and> map_option (Sent \<circ> snd) r =
           Some [ConversationItemCreate ''input_audio'' ''audio_0'',
                 InputAudioBufferAppend ''evt_audio_1'' ''AQI='',
                 InputAudioBufferAppend ''evt_audio_2'' ''AwQ='',
                 InputAudioBufferAppend ''evt_audio_3'' ''BQ=='',
                 InputAudioBufferCommit ''evt_commit_3'',
                 ResponseCreate]
       \<and> map_option (Writes \<circ> snd) r = Some 6)"
proof -
  let ?file = "Content (snd (encodeWAV [1, 2, 3, 4, 5]))"
  have valid: "validateWAVFormat False ?file = None"
    by (simp add: encodeWAV_eq validate_written_header del: map_append concat_append)
  have raw: "drop 44 ?file = [1, 2, 3, 4, 5]"
    by (simp only: encodeWAV_eq snd_conv wfile.select_convs drop_written_header)
  show ?thesis
    unfolding Let_def sendAudioMessageWith_def
    by (simp add: valid raw noFaults_def NewChatClient_def WriteJSON_def LoggerLog_def
        sendChunks.simps decimal.simps digitChar_def enc64_def encodeStd_def)
qed


end
